theory Spec2Isabelle
  imports Complex_Main "HOL-Library.Word"
begin

unbundle bit_operations_syntax

section \<open>Decimal values\<close>

text \<open>
  The monetary fields are \<^verbatim>\<open>DecimalField(max_digits=10, decimal_places=2)\<close> and hold
  Python \<^verbatim>\<open>Decimal\<close> values. A \<^verbatim>\<open>Decimal\<close> is modelled by the rational number it
  denotes, so \<^verbatim>\<open>Decimal('1.1')\<close> and \<^verbatim>\<open>Decimal('1.10')\<close> are the same value here.
  Sums, differences and products of field values are exact in Python (the default context
  keeps 28 significant digits and a field value has at most 10), and are the rational
  operations here. A quotient is not exact in general: Python rounds it to 28 significant
  digits, half to even, and \<open>dec_div\<close> does the same.
\<close>

type_synonym decimal = rat

datatype error =
    ZeroDivisionError
  | IntegrityError
  | ProtectedError
  | ValidationError
  | NotFound
  | InsufficientStock string
  | Inactive
  | Conflict

definition round_half_even :: "rat \<Rightarrow> int" where
  "round_half_even x =
     (let f = \<lfloor>x\<rfloor>; r = x - of_int f
      in if r < 1 / 2 then f
         else if 1 / 2 < r then f + 1
         else if even f then f else f + 1)"

fun digits10 :: "nat \<Rightarrow> nat" where
  "digits10 n = (if n < 10 then 1 else Suc (digits10 (n div 10)))"

declare digits10.simps [simp del]

definition pow10 :: "int \<Rightarrow> rat" where
  "pow10 k = (if 0 \<le> k then 10 ^ nat k else 1 / 10 ^ nat (- k))"

text \<open>
  For \<open>0 < q\<close>, \<open>floor_log10 q\<close> is the exponent \<open>k\<close> with
  \<open>10 ^ k \<le> q < 10 ^ (k + 1)\<close>: the position of the leading digit of \<open>q\<close>.
\<close>

definition floor_log10 :: "rat \<Rightarrow> int" where
  "floor_log10 q =
     (if 1 \<le> q then int (digits10 (nat \<lfloor>q\<rfloor>)) - 1
      else let r = 1 / q; d = digits10 (nat \<lfloor>r\<rfloor>)
           in if r = 10 ^ (d - 1) then - int (d - 1) else - int d)"

definition dec_round :: "nat \<Rightarrow> rat \<Rightarrow> rat" where
  "dec_round prec q =
     (if q = 0 then 0
      else let e = floor_log10 \<bar>q\<bar> - (int prec - 1);
               m = round_half_even (\<bar>q\<bar> / pow10 e)
           in sgn q * of_int m * pow10 e)"

definition dec_div :: "decimal \<Rightarrow> decimal \<Rightarrow> error + decimal" where
  "dec_div a b = (if b = 0 then Inl ZeroDivisionError else Inr (dec_round 28 (a / b)))"

text \<open>Python's truth value of a field that holds \<^verbatim>\<open>None\<close> or a \<^verbatim>\<open>Decimal\<close>:
  \<^verbatim>\<open>not v\<close> is true for \<^verbatim>\<open>None\<close> and for every zero.\<close>

definition py_not :: "decimal option \<Rightarrow> bool" where
  "py_not v = (case v of None \<Rightarrow> True | Some d \<Rightarrow> d = 0)"

section \<open>inventory/models.py\<close>

text \<open>
  Rows are referred to by their primary key, a \<open>nat\<close>. The image and the two
  timestamps of a Product, and \<^verbatim>\<open>received_at\<close> and \<^verbatim>\<open>created_at\<close> below, take no
  part in any operation of the models and are left out.
\<close>

record Product =
  sku :: string
  name :: string
  brand :: string
  category :: string
  description :: string
  cost_price :: decimal
  selling_price :: decimal
  stock_quantity :: int
  restock_threshold :: int
  is_active :: bool

definition CATEGORY_CHOICES :: "string list" where
  "CATEGORY_CHOICES = [''LIPS'', ''EYES'', ''FACE'', ''SKINCARE'', ''ACCESSORIES'']"

definition needs_restock :: "Product \<Rightarrow> bool" where
  "needs_restock p = (stock_quantity p \<le> restock_threshold p)"

definition profit_per_unit :: "Product \<Rightarrow> decimal" where
  "profit_per_unit p = selling_price p - cost_price p"

definition profit_percentage :: "Product \<Rightarrow> error + decimal" where
  "profit_percentage p =
     (if 0 < cost_price p then
        (case dec_div (profit_per_unit p) (cost_price p) of
           Inl e \<Rightarrow> Inl e
         | Inr q \<Rightarrow> Inr (q * 100))
      else Inr 0)"

record StockReceipt =
  receipt_product :: nat
  receipt_quantity :: int
  cost_price_at_receipt :: decimal
  supplier_name :: string
  supplier_notes :: string
  received_by :: nat

section \<open>accounts/models.py\<close>

record User =
  username :: string
  role :: string

definition is_owner :: "User \<Rightarrow> bool" where
  "is_owner u = (role u = ''OWNER'')"

definition is_employee :: "User \<Rightarrow> bool" where
  "is_employee u = (role u = ''EMPLOYEE'')"

section \<open>sales/models.py\<close>

record Sale =
  order_id :: string
  cashier :: nat
  sale_subtotal :: decimal
  tax :: decimal
  total :: decimal
  sale_profit :: decimal
  payment_method :: string
  sale_notes :: string

definition PAYMENT_METHODS :: "string list" where
  "PAYMENT_METHODS = [''CASH'', ''CARD'', ''UPI'']"

text \<open>
  \<^verbatim>\<open>uuid.uuid4()\<close> draws 16 random bytes and fixes the variant and version bits; the
  random bytes are the argument \<open>r\<close>. \<^verbatim>\<open>.hex\<close> is the 32 lower-case hexadecimal
  digits of the 128-bit number, most significant first.
\<close>

definition uuid4 :: "128 word \<Rightarrow> 128 word" where
  "uuid4 r =
     (((r AND NOT (push_bit 48 0xc000)) OR push_bit 48 0x8000)
        AND NOT (push_bit 64 0xf000)) OR push_bit 76 4"

definition hex_digit :: "nat \<Rightarrow> char" where
  "hex_digit n = ''0123456789abcdef'' ! (n mod 16)"

definition hex :: "128 word \<Rightarrow> string" where
  "hex w = map (\<lambda>i. hex_digit (unat (drop_bit (4 * (31 - i)) w AND 0xF))) [0..<32]"

definition upper_char :: "char \<Rightarrow> char" where
  "upper_char c =
     (case map_of (zip ''abcdefghijklmnopqrstuvwxyz'' ''ABCDEFGHIJKLMNOPQRSTUVWXYZ'') c of
        Some u \<Rightarrow> u
      | None \<Rightarrow> c)"

definition upper :: "string \<Rightarrow> string" where
  "upper s = map upper_char s"

definition new_order_id :: "128 word \<Rightarrow> string" where
  "new_order_id r = ''#ORD-'' @ upper (take 8 (hex (uuid4 r)))"

text \<open>The body of \<^verbatim>\<open>Sale.save\<close> before \<^verbatim>\<open>super().save()\<close>.\<close>

definition Sale_pre_save :: "128 word \<Rightarrow> Sale \<Rightarrow> Sale" where
  "Sale_pre_save r s = (if order_id s = [] then s\<lparr>order_id := new_order_id r\<rparr> else s)"

record SaleItem =
  sale :: nat
  product :: nat
  quantity :: int
  unit_price :: decimal
  unit_cost :: decimal
  subtotal :: "decimal option"
  profit :: "decimal option"

text \<open>The body of \<^verbatim>\<open>SaleItem.save\<close> before \<^verbatim>\<open>super().save()\<close>.\<close>

definition SaleItem_pre_save :: "SaleItem \<Rightarrow> SaleItem" where
  "SaleItem_pre_save si =
     (let si1 = (if py_not (subtotal si)
                 then si\<lparr>subtotal := Some (unit_price si * of_int (quantity si))\<rparr>
                 else si)
      in if py_not (profit si1)
         then si1\<lparr>profit := Some ((unit_price si1 - unit_cost si1) * of_int (quantity si1))\<rparr>
         else si1)"

section \<open>The store: tables, constraints, transactions\<close>

text \<open>
  The four models and the user model are tables of rows under integer primary keys.
  The settings select SQLite, whose primary keys are \<^verbatim>\<open>AUTOINCREMENT\<close>: a fresh key is
  one more than the largest key the table ever held, kept in \<open>seq\<close>.
\<close>

record 'a table =
  rows :: "(nat \<times> 'a) list"
  seq :: nat

definition empty_table :: "'a table" where
  "empty_table = \<lparr>rows = [], seq = 0\<rparr>"

definition keys :: "'a table \<Rightarrow> nat list" where
  "keys t = map fst (rows t)"

definition lookup :: "'a table \<Rightarrow> nat \<Rightarrow> 'a option" where
  "lookup t k = map_of (rows t) k"

definition insert_row :: "'a table \<Rightarrow> 'a \<Rightarrow> nat \<times> 'a table" where
  "insert_row t x = (let k = Suc (seq t) in (k, \<lparr>rows = rows t @ [(k, x)], seq = k\<rparr>))"

definition update_row :: "'a table \<Rightarrow> nat \<Rightarrow> 'a \<Rightarrow> 'a table" where
  "update_row t k x = t\<lparr>rows := map (\<lambda>(k', y). (k', if k' = k then x else y)) (rows t)\<rparr>"

definition delete_rows :: "(nat \<Rightarrow> 'a \<Rightarrow> bool) \<Rightarrow> 'a table \<Rightarrow> 'a table" where
  "delete_rows P t = t\<lparr>rows := filter (\<lambda>(k, y). \<not> P k y) (rows t)\<rparr>"

text \<open>
  \<^verbatim>\<open>Model.save\<close> on an instance whose primary key is \<^verbatim>\<open>None\<close> inserts a row under a
  fresh key; with a primary key it updates that row, or inserts it when there is none.
\<close>

definition save_row :: "'a table \<Rightarrow> nat option \<Rightarrow> 'a \<Rightarrow> nat \<times> 'a table" where
  "save_row t pk x =
     (case pk of
        None \<Rightarrow> insert_row t x
      | Some k \<Rightarrow>
          if k \<in> set (keys t) then (k, update_row t k x)
          else (k, \<lparr>rows = rows t @ [(k, x)], seq = max (seq t) k\<rparr>))"

record store =
  users :: "User table"
  products :: "Product table"
  stock_receipts :: "StockReceipt table"
  sales :: "Sale table"
  sale_items :: "SaleItem table"

definition empty_store :: store where
  "empty_store =
     \<lparr>users = empty_table, products = empty_table, stock_receipts = empty_table,
      sales = empty_table, sale_items = empty_table\<rparr>"

text \<open>
  The foreign keys of the models. SQLite checks them when the transaction commits
  (Django declares them deferred), so a transaction may insert a row before the row it
  refers to, and fails as a whole when a reference is still dangling at its end.
\<close>

definition fk_ok :: "store \<Rightarrow> bool" where
  "fk_ok st =
     (list_all (\<lambda>(k, r). receipt_product r \<in> set (keys (products st))
                        \<and> received_by r \<in> set (keys (users st))) (rows (stock_receipts st))
      \<and> list_all (\<lambda>(k, s). cashier s \<in> set (keys (users st))) (rows (sales st))
      \<and> list_all (\<lambda>(k, i). sale i \<in> set (keys (sales st))
                          \<and> product i \<in> set (keys (products st))) (rows (sale_items st)))"

text \<open>
  A transaction body returns an error, or a value and the store it leaves. \<open>atomic\<close>
  is \<^verbatim>\<open>transaction.atomic\<close>: an error inside, or a dangling reference at the commit,
  leaves the store as it was before the transaction.
\<close>

definition atomic :: "(store \<Rightarrow> error + 'a \<times> store) \<Rightarrow> store \<Rightarrow> (error + 'a) \<times> store" where
  "atomic body st =
     (case body st of
        Inl e \<Rightarrow> (Inl e, st)
      | Inr (v, st') \<Rightarrow> if fk_ok st' then (Inr v, st') else (Inl IntegrityError, st))"

text \<open>Sequencing inside a transaction body: the first error ends it.\<close>

definition and_then :: "error + 'a \<Rightarrow> ('a \<Rightarrow> error + 'b) \<Rightarrow> error + 'b" where
  "and_then m f = (case m of Inl e \<Rightarrow> Inl e | Inr v \<Rightarrow> f v)"

subsection \<open>Writing one row\<close>

text \<open>
  The constraints the tables carry and SQLite checks at once: \<^verbatim>\<open>unique=True\<close> on
  \<^verbatim>\<open>sku\<close> and \<^verbatim>\<open>order_id\<close>, the check \<open>0 \<le> _\<close> of every
  \<^verbatim>\<open>PositiveIntegerField\<close> column, and \<^verbatim>\<open>NOT NULL\<close>.
\<close>

definition Product_db_save :: "store \<Rightarrow> nat option \<Rightarrow> Product \<Rightarrow> error + nat \<times> store" where
  "Product_db_save st pk p =
     (if stock_quantity p < 0 \<or> restock_threshold p < 0 then Inl IntegrityError
      else if list_ex (\<lambda>(k, p'). Some k \<noteq> pk \<and> sku p' = sku p) (rows (products st))
      then Inl IntegrityError
      else let (k, t) = save_row (products st) pk p in Inr (k, st\<lparr>products := t\<rparr>))"

definition StockReceipt_db_save ::
    "store \<Rightarrow> nat option \<Rightarrow> StockReceipt \<Rightarrow> error + nat \<times> store" where
  "StockReceipt_db_save st pk r =
     (if receipt_quantity r < 0 then Inl IntegrityError
      else let (k, t) = save_row (stock_receipts st) pk r in Inr (k, st\<lparr>stock_receipts := t\<rparr>))"

definition Sale_db_save :: "store \<Rightarrow> nat option \<Rightarrow> Sale \<Rightarrow> error + nat \<times> store" where
  "Sale_db_save st pk s =
     (if list_ex (\<lambda>(k, s'). Some k \<noteq> pk \<and> order_id s' = order_id s) (rows (sales st))
      then Inl IntegrityError
      else let (k, t) = save_row (sales st) pk s in Inr (k, st\<lparr>sales := t\<rparr>))"

definition SaleItem_db_save :: "store \<Rightarrow> nat option \<Rightarrow> SaleItem \<Rightarrow> error + nat \<times> store" where
  "SaleItem_db_save st pk i =
     (if quantity i < 0 \<or> subtotal i = None \<or> profit i = None then Inl IntegrityError
      else let (k, t) = save_row (sale_items st) pk i in Inr (k, st\<lparr>sale_items := t\<rparr>))"

subsection \<open>save and delete of the models\<close>

text \<open>
  Outside a transaction every \<^verbatim>\<open>save\<close> commits by itself. Only \<^verbatim>\<open>Sale\<close> and
  \<^verbatim>\<open>SaleItem\<close> override \<^verbatim>\<open>save\<close>; their bodies run before the row is written.
\<close>

definition Product_save :: "store \<Rightarrow> nat option \<Rightarrow> Product \<Rightarrow> (error + nat) \<times> store" where
  "Product_save st pk p = atomic (\<lambda>s. Product_db_save s pk p) st"

definition StockReceipt_save ::
    "store \<Rightarrow> nat option \<Rightarrow> StockReceipt \<Rightarrow> (error + nat) \<times> store" where
  "StockReceipt_save st pk r = atomic (\<lambda>s. StockReceipt_db_save s pk r) st"

definition Sale_save :: "128 word \<Rightarrow> store \<Rightarrow> nat option \<Rightarrow> Sale \<Rightarrow> (error + nat) \<times> store" where
  "Sale_save r st pk s = atomic (\<lambda>s'. Sale_db_save s' pk (Sale_pre_save r s)) st"

definition SaleItem_save :: "store \<Rightarrow> nat option \<Rightarrow> SaleItem \<Rightarrow> (error + nat) \<times> store" where
  "SaleItem_save st pk i = atomic (\<lambda>s. SaleItem_db_save s pk (SaleItem_pre_save i)) st"

text \<open>
  \<^verbatim>\<open>delete\<close> follows the \<^verbatim>\<open>on_delete\<close> of the foreign keys that point at the row:
  \<^verbatim>\<open>PROTECT\<close> from \<^verbatim>\<open>StockReceipt.product\<close> and \<^verbatim>\<open>SaleItem.product\<close> refuses to
  delete a Product that a receipt or a sale item refers to; \<^verbatim>\<open>CASCADE\<close> from
  \<^verbatim>\<open>SaleItem.sale\<close> deletes the items of a Sale with it. Nothing points at a SaleItem.
\<close>

definition Product_delete :: "store \<Rightarrow> nat \<Rightarrow> (error + unit) \<times> store" where
  "Product_delete st k =
     (if list_ex (\<lambda>(_, r). receipt_product r = k) (rows (stock_receipts st))
         \<or> list_ex (\<lambda>(_, i). product i = k) (rows (sale_items st))
      then (Inl ProtectedError, st)
      else atomic (\<lambda>s. Inr ((), s\<lparr>products := delete_rows (\<lambda>k' _. k' = k) (products s)\<rparr>)) st)"

definition Sale_delete :: "store \<Rightarrow> nat \<Rightarrow> (error + unit) \<times> store" where
  "Sale_delete st k =
     atomic (\<lambda>s. Inr ((), s\<lparr>sale_items := delete_rows (\<lambda>_ i. sale i = k) (sale_items s),
                              sales := delete_rows (\<lambda>k' _. k' = k) (sales s)\<rparr>)) st"

section \<open>Model validation\<close>

text \<open>
  \<^verbatim>\<open>full_clean\<close> cleans every field (\<^verbatim>\<open>clean_fields\<close>) and then checks uniqueness
  (\<^verbatim>\<open>validate_unique\<close>); the models define no \<^verbatim>\<open>clean\<close> and no constraints of their
  own. The result is the list of the errors found, as pairs of a field name and Django's
  error code; the instance is accepted when the list is empty. A field stops at the first
  error of its own \<^verbatim>\<open>validate\<close> (choices, null, blank) and otherwise reports every
  validator that fails. The three codes of \<^verbatim>\<open>DecimalValidator\<close> are merged into one,
  since they depend on how the \<^verbatim>\<open>Decimal\<close> is written and not only on its value.
\<close>

type_synonym verrors = "(string \<times> string) list"

definition MinValueValidator :: "'a::linorder \<Rightarrow> 'a \<Rightarrow> string list" where
  "MinValueValidator limit_value v = (if v < limit_value then [''min_value''] else [])"

definition MaxValueValidator :: "'a::linorder \<Rightarrow> 'a \<Rightarrow> string list" where
  "MaxValueValidator limit_value v = (if limit_value < v then [''max_value''] else [])"

definition MaxLengthValidator :: "nat \<Rightarrow> string \<Rightarrow> string list" where
  "MaxLengthValidator limit_value v = (if limit_value < length v then [''max_length''] else [])"

definition decimal_fits :: "nat \<Rightarrow> nat \<Rightarrow> decimal \<Rightarrow> bool" where
  "decimal_fits max_digits decimal_places v =
     (of_int \<lfloor>v * 10 ^ decimal_places\<rfloor> = v * 10 ^ decimal_places
      \<and> \<bar>v\<bar> < 10 ^ (max_digits - decimal_places))"

definition DecimalValidator :: "nat \<Rightarrow> nat \<Rightarrow> decimal \<Rightarrow> string list" where
  "DecimalValidator max_digits decimal_places v =
     (if decimal_fits max_digits decimal_places v then [] else [''max_digits''])"

definition field_errors :: "string \<Rightarrow> string list \<Rightarrow> verrors" where
  "field_errors f codes = map (Pair f) codes"

text \<open>\<^verbatim>\<open>CharField(max_length=n)\<close>, with \<^verbatim>\<open>choices\<close> when the list is not empty.\<close>

definition CharField :: "nat \<Rightarrow> string list \<Rightarrow> string \<Rightarrow> string list" where
  "CharField max_length choices v =
     (if v \<noteq> [] \<and> choices \<noteq> [] \<and> v \<notin> set choices then [''invalid_choice'']
      else if v = [] then [''blank'']
      else MaxLengthValidator max_length v)"

text \<open>\<^verbatim>\<open>DecimalField(max_digits=10, decimal_places=2, validators=vs)\<close>.\<close>

definition DecimalField :: "(decimal \<Rightarrow> string list) list \<Rightarrow> decimal \<Rightarrow> string list" where
  "DecimalField vs v = concat (map (\<lambda>f. f v) vs) @ DecimalValidator 10 2 v"

definition DecimalField_opt ::
    "(decimal \<Rightarrow> string list) list \<Rightarrow> decimal option \<Rightarrow> string list" where
  "DecimalField_opt vs v = (case v of None \<Rightarrow> [''null''] | Some d \<Rightarrow> DecimalField vs d)"

text \<open>
  \<^verbatim>\<open>PositiveIntegerField(validators=vs)\<close>. Django adds the range of the column on the
  backend, on SQLite 0 to \<open>2 ^ 63 - 1\<close>; the lower bound is added only when no
  \<^verbatim>\<open>MinValueValidator\<close> of the field already asks for as much, which \<open>has_min\<close> says.
\<close>

definition PositiveIntegerField :: "bool \<Rightarrow> (int \<Rightarrow> string list) list \<Rightarrow> int \<Rightarrow> string list" where
  "PositiveIntegerField has_min vs v =
     concat (map (\<lambda>f. f v) vs)
     @ (if has_min then [] else MinValueValidator 0 v)
     @ MaxValueValidator 9223372036854775807 v"

definition ForeignKey :: "'a table \<Rightarrow> nat \<Rightarrow> string list" where
  "ForeignKey t k = (if k \<in> set (keys t) then [] else [''invalid''])"

definition Product_clean_fields :: "Product \<Rightarrow> verrors" where
  "Product_clean_fields p =
     field_errors ''sku'' (CharField 50 [] (sku p))
     @ field_errors ''name'' (CharField 200 [] (name p))
     @ field_errors ''brand'' (CharField 100 [] (brand p))
     @ field_errors ''category'' (CharField 20 CATEGORY_CHOICES (category p))
     @ field_errors ''cost_price'' (DecimalField [MinValueValidator (1 / 100)] (cost_price p))
     @ field_errors ''selling_price''
         (DecimalField [MinValueValidator (1 / 100)] (selling_price p))
     @ field_errors ''stock_quantity'' (PositiveIntegerField False [] (stock_quantity p))
     @ field_errors ''restock_threshold'' (PositiveIntegerField False [] (restock_threshold p))"

definition Product_full_clean :: "store \<Rightarrow> nat option \<Rightarrow> Product \<Rightarrow> verrors" where
  "Product_full_clean st pk p =
     Product_clean_fields p
     @ (if list_ex (\<lambda>(k, p'). Some k \<noteq> pk \<and> sku p' = sku p) (rows (products st))
        then [(''sku'', ''unique'')] else [])"

definition Sale_clean_fields :: "store \<Rightarrow> Sale \<Rightarrow> verrors" where
  "Sale_clean_fields st s =
     field_errors ''order_id'' (CharField 20 [] (order_id s))
     @ field_errors ''cashier'' (ForeignKey (users st) (cashier s))
     @ field_errors ''subtotal'' (DecimalField [MinValueValidator 0] (sale_subtotal s))
     @ field_errors ''tax'' (DecimalField [MinValueValidator 0] (tax s))
     @ field_errors ''total'' (DecimalField [MinValueValidator 0] (total s))
     @ field_errors ''profit'' (DecimalField [] (sale_profit s))
     @ field_errors ''payment_method'' (CharField 10 PAYMENT_METHODS (payment_method s))"

definition Sale_full_clean :: "store \<Rightarrow> nat option \<Rightarrow> Sale \<Rightarrow> verrors" where
  "Sale_full_clean st pk s =
     Sale_clean_fields st s
     @ (if list_ex (\<lambda>(k, s'). Some k \<noteq> pk \<and> order_id s' = order_id s) (rows (sales st))
        then [(''order_id'', ''unique'')] else [])"

definition SaleItem_full_clean :: "store \<Rightarrow> SaleItem \<Rightarrow> verrors" where
  "SaleItem_full_clean st i =
     field_errors ''sale'' (ForeignKey (sales st) (sale i))
     @ field_errors ''product'' (ForeignKey (products st) (product i))
     @ field_errors ''quantity'' (PositiveIntegerField True [MinValueValidator 1] (quantity i))
     @ field_errors ''unit_price'' (DecimalField [] (unit_price i))
     @ field_errors ''unit_cost'' (DecimalField [] (unit_cost i))
     @ field_errors ''subtotal'' (DecimalField_opt [] (subtotal i))
     @ field_errors ''profit'' (DecimalField_opt [] (profit i))"

section \<open>The core operations of the specification\<close>

text \<open>
  The sources hold the models only: no function of theirs receives stock or creates a
  sale. The Catalog Store's \<^verbatim>\<open>adjustStock\<close>, the Receiving Ledger's
  \<^verbatim>\<open>recordReceipt\<close> and the Sale Transaction Engine's \<^verbatim>\<open>createSale\<close> are
  therefore modelled from the specification, over the tables, the constraints and the
  \<^verbatim>\<open>save\<close> bodies of the models above.
\<close>

text \<open>Modelled from the spec: \<^verbatim>\<open>adjustStock(productId, delta, expectedMinimum=0)\<close> of
  the Catalog Store (section 4.1), missing from the sources. It "applies
  \<^verbatim>\<open>stock_quantity += delta\<close> within the caller's atomic unit of work; fails with
  \<^verbatim>\<open>InsufficientStock\<close> if the resulting quantity would go negative; fails with
  \<^verbatim>\<open>NotFound\<close> if the product does not exist or \<^verbatim>\<open>Inactive\<close> if \<^verbatim>\<open>is_active\<close> is
  false and the adjustment is a sale-driven decrement". \<^verbatim>\<open>expectedMinimum\<close> stays at
  its default 0, the only value the specification gives a meaning; \<open>sale_driven\<close> says
  who calls.\<close>

definition adjustStock :: "store \<Rightarrow> nat \<Rightarrow> int \<Rightarrow> bool \<Rightarrow> error + store" where
  "adjustStock st productId delta sale_driven =
     (case lookup (products st) productId of
        None \<Rightarrow> Inl NotFound
      | Some p \<Rightarrow>
          if \<not> is_active p \<and> sale_driven \<and> delta < 0 then Inl Inactive
          else if stock_quantity p + delta < 0 then Inl (InsufficientStock (sku p))
          else Inr (st\<lparr>products := update_row (products st) productId
                                      (p\<lparr>stock_quantity := stock_quantity p + delta\<rparr>)\<rparr>))"

text \<open>Modelled from the spec: \<^verbatim>\<open>recordReceipt(productId, quantity>0,
  costPriceAtReceipt>0, receivedBy, supplierInfo?)\<close> of the Receiving Ledger (section
  4.2), missing from the sources. It validates its inputs ("quantity positive integer,
  cost positive decimal", else \<^verbatim>\<open>ValidationError\<close>), then "within one atomic unit of
  work: inserts the immutable StockReceipt row, then calls Catalog Store
  \<^verbatim>\<open>adjustStock(productId, +quantity)\<close>", and returns the persisted receipt with its
  generated id. A product that does not resolve is the \<^verbatim>\<open>NotFound\<close> of
  \<^verbatim>\<open>adjustStock\<close>.\<close>

definition recordReceipt ::
    "store \<Rightarrow> nat \<Rightarrow> int \<Rightarrow> decimal \<Rightarrow> nat \<Rightarrow> string \<Rightarrow> string
       \<Rightarrow> (error + nat \<times> StockReceipt) \<times> store" where
  "recordReceipt st productId qty costPriceAtReceipt receivedBy supplierName supplierNotes =
     (if qty \<le> 0 \<or> costPriceAtReceipt \<le> 0 then (Inl ValidationError, st)
      else
        let r = \<lparr>receipt_product = productId, receipt_quantity = qty,
                 cost_price_at_receipt = costPriceAtReceipt, supplier_name = supplierName,
                 supplier_notes = supplierNotes, received_by = receivedBy\<rparr>
        in atomic (\<lambda>s.
             and_then (StockReceipt_db_save s None r) (\<lambda>(k, s1).
             and_then (adjustStock s1 productId qty False) (\<lambda>s2.
             Inr ((k, r), s2)))) st)"

text \<open>Modelled from the spec: the arguments of \<^verbatim>\<open>createSale(cashier, paymentMethod,
  taxAmountOrRate, lineItems: [{productId, quantity>0}], notes?)\<close> of the Sale
  Transaction Engine (section 4.3), missing from the sources: a line item, the payment
  method (the enum CASH, CARD, UPI) and the tax, given as an amount or as a rate of the
  subtotal.\<close>

record LineItem =
  productId :: nat
  line_quantity :: int

datatype PaymentMethod = Cash | Card | Upi

fun payment_code :: "PaymentMethod \<Rightarrow> string" where
  "payment_code Cash = ''CASH''"
| "payment_code Card = ''CARD''"
| "payment_code Upi = ''UPI''"

datatype TaxPolicy = TaxAmount decimal | TaxRate decimal

fun tax_of :: "TaxPolicy \<Rightarrow> decimal \<Rightarrow> decimal" where
  "tax_of (TaxAmount a) sub = a"
| "tax_of (TaxRate r) sub = sub * r"

text \<open>Modelled from the spec: step 2 of \<^verbatim>\<open>createSale\<close>. "For each line, atomically
  read the Product: must exist, must be \<^verbatim>\<open>is_active\<close>, must have
  \<^verbatim>\<open>stock_quantity \<ge> quantity\<close> - else fail with \<^verbatim>\<open>InsufficientStock\<close> (identifying
  the offending SKU) before any mutation occurs". A product that does not exist has no
  SKU to name and is the \<^verbatim>\<open>NotFound\<close> of the failure modes.\<close>

fun check_lines :: "store \<Rightarrow> LineItem list \<Rightarrow> error + (LineItem \<times> Product) list" where
  "check_lines st [] = Inr []"
| "check_lines st (l # ls) =
     (case lookup (products st) (productId l) of
        None \<Rightarrow> Inl NotFound
      | Some p \<Rightarrow>
          if \<not> is_active p \<or> stock_quantity p < line_quantity l
          then Inl (InsufficientStock (sku p))
          else (case check_lines st ls of
                  Inl e \<Rightarrow> Inl e
                | Inr lps \<Rightarrow> Inr ((l, p) # lps)))"

text \<open>Modelled from the spec: step 3 of \<^verbatim>\<open>createSale\<close>. "Snapshot \<^verbatim>\<open>unit_price\<close> =
  Product.selling_price, \<^verbatim>\<open>unit_cost\<close> = Product.cost_price at read time into a new
  SaleItem; compute \<^verbatim>\<open>subtotal = unit_price \<times> quantity\<close>,
  \<^verbatim>\<open>profit = (unit_price - unit_cost) \<times> quantity\<close>".\<close>

definition line_subtotal :: "LineItem \<times> Product \<Rightarrow> decimal" where
  "line_subtotal lp = (case lp of (l, p) \<Rightarrow> selling_price p * of_int (line_quantity l))"

definition line_profit :: "LineItem \<times> Product \<Rightarrow> decimal" where
  "line_profit lp =
     (case lp of (l, p) \<Rightarrow> (selling_price p - cost_price p) * of_int (line_quantity l))"

definition snapshot :: "nat \<Rightarrow> LineItem \<times> Product \<Rightarrow> SaleItem" where
  "snapshot sale_id lp =
     (case lp of (l, p) \<Rightarrow>
        \<lparr>sale = sale_id, product = productId l, quantity = line_quantity l,
         unit_price = selling_price p, unit_cost = cost_price p,
         subtotal = Some (line_subtotal lp), profit = Some (line_profit lp)\<rparr>)"

text \<open>Modelled from the spec: step 4 of \<^verbatim>\<open>createSale\<close>. "Compute Sale-level
  \<^verbatim>\<open>subtotal\<close> = sum of item subtotals; \<^verbatim>\<open>tax\<close> per the supplied tax policy;
  \<^verbatim>\<open>total = subtotal + tax\<close>; \<^verbatim>\<open>profit\<close> = sum of item profits".\<close>

definition sale_header ::
    "string \<Rightarrow> nat \<Rightarrow> PaymentMethod \<Rightarrow> TaxPolicy \<Rightarrow> (LineItem \<times> Product) list \<Rightarrow> string
       \<Rightarrow> Sale" where
  "sale_header oid cashier_id paymentMethod taxAmountOrRate lps notes =
     (let sub = sum_list (map line_subtotal lps);
          prof = sum_list (map line_profit lps);
          tx = tax_of taxAmountOrRate sub
      in \<lparr>order_id = oid, cashier = cashier_id, sale_subtotal = sub, tax = tx,
          total = sub + tx, sale_profit = prof,
          payment_method = payment_code paymentMethod, sale_notes = notes\<rparr>)"

text \<open>Modelled from the spec: step 5 of \<^verbatim>\<open>createSale\<close>. "Generate a unique
  \<^verbatim>\<open>order_id\<close>", and on a collision "retry with a new id transparently up to a small
  bounded number of attempts, then surface as fatal" (\<^verbatim>\<open>Conflict\<close>). The random draws
  are the list \<open>rnds\<close>, one per attempt, so its length bounds the retries; each id is
  made as \<^verbatim>\<open>Sale.save\<close> makes it.\<close>

fun fresh_order_id :: "store \<Rightarrow> 128 word list \<Rightarrow> error + string" where
  "fresh_order_id st [] = Inl Conflict"
| "fresh_order_id st (r # rs) =
     (if list_ex (\<lambda>(k, s). order_id s = new_order_id r) (rows (sales st))
      then fresh_order_id st rs
      else Inr (new_order_id r))"

text \<open>Modelled from the spec: step 6 of \<^verbatim>\<open>createSale\<close>. "Decrement each Product's
  \<^verbatim>\<open>stock_quantity\<close> by its line quantity via Catalog Store \<^verbatim>\<open>adjustStock\<close>".\<close>

fun decrement_all :: "store \<Rightarrow> LineItem list \<Rightarrow> error + store" where
  "decrement_all st [] = Inr st"
| "decrement_all st (l # ls) =
     (case adjustStock st (productId l) (- line_quantity l) True of
        Inl e \<Rightarrow> Inl e
      | Inr st' \<Rightarrow> decrement_all st' ls)"

text \<open>Modelled from the spec: step 7 of \<^verbatim>\<open>createSale\<close>, for the item rows. "Persist
  Sale header and all SaleItem rows": each row is written as \<^verbatim>\<open>SaleItem.save\<close> writes
  it, its body first.\<close>

fun insert_items :: "store \<Rightarrow> SaleItem list \<Rightarrow> error + store" where
  "insert_items st [] = Inr st"
| "insert_items st (i # items) =
     (case SaleItem_db_save st None (SaleItem_pre_save i) of
        Inl e \<Rightarrow> Inl e
      | Inr (k, st') \<Rightarrow> insert_items st' items)"

text \<open>Modelled from the spec: \<^verbatim>\<open>createSale\<close> itself. Step 1 validates the line items
  (\<^verbatim>\<open>ValidationError\<close>); steps 2 to 7 run as "one atomic unit of work: either every row
  is written and every stock decrement applied, or none are"; an unknown cashier is
  \<^verbatim>\<open>NotFound\<close>; step 8 returns the persisted Sale with its id.\<close>

definition createSale ::
    "store \<Rightarrow> 128 word list \<Rightarrow> nat \<Rightarrow> PaymentMethod \<Rightarrow> TaxPolicy \<Rightarrow> LineItem list \<Rightarrow> string
       \<Rightarrow> (error + nat \<times> Sale) \<times> store" where
  "createSale st rnds cashier_id paymentMethod taxAmountOrRate lineItems notes =
     (if lineItems = [] \<or> list_ex (\<lambda>l. line_quantity l \<le> 0) lineItems
      then (Inl ValidationError, st)
      else atomic (\<lambda>s.
        and_then (if cashier_id \<in> set (keys (users s)) then Inr () else Inl NotFound) (\<lambda>_.
        and_then (check_lines s lineItems) (\<lambda>lps.
        and_then (fresh_order_id s rnds) (\<lambda>oid.
        and_then (decrement_all s lineItems) (\<lambda>s1.
        and_then (Sale_db_save s1 None
                    (sale_header oid cashier_id paymentMethod taxAmountOrRate lps notes))
          (\<lambda>(k, s2).
        and_then (insert_items s2 (map (snapshot k) lps)) (\<lambda>s3.
        Inr ((k, sale_header oid cashier_id paymentMethod taxAmountOrRate lps notes),
             s3)))))))) st)"

subsection \<open>Sequences of committed operations\<close>

text \<open>Modelled from the spec: "any sequence of committed receipts (+q) and sales (-q)" of
  the stock conservation property (section 8). An operation is a call of
  \<^verbatim>\<open>recordReceipt\<close> or of \<^verbatim>\<open>createSale\<close> with its arguments; it is committed when the
  call succeeds.\<close>

datatype operation =
    Receive nat int decimal nat string string
  | Sell "128 word list" nat PaymentMethod TaxPolicy "LineItem list" string

fun apply_operation :: "store \<Rightarrow> operation \<Rightarrow> store option" where
  "apply_operation st (Receive product_id qty cost receivedBy sname snotes) =
     (case recordReceipt st product_id qty cost receivedBy sname snotes of
        (Inl e, _) \<Rightarrow> None
      | (Inr _, st') \<Rightarrow> Some st')"
| "apply_operation st (Sell rnds cashier_id pm tp lineItems notes) =
     (case createSale st rnds cashier_id pm tp lineItems notes of
        (Inl e, _) \<Rightarrow> None
      | (Inr _, st') \<Rightarrow> Some st')"

text \<open>The store after a sequence of operations that all commit; \<open>None\<close> when one of
  them fails.\<close>

fun committed :: "store \<Rightarrow> operation list \<Rightarrow> store option" where
  "committed st [] = Some st"
| "committed st (x # xs) =
     (case apply_operation st x of None \<Rightarrow> None | Some st' \<Rightarrow> committed st' xs)"

text \<open>The quantity an operation receives of a product, and the quantity it sells of it
  (over all the lines of the sale that name the product).\<close>

definition line_total :: "nat \<Rightarrow> LineItem list \<Rightarrow> int" where
  "line_total pid ls = sum_list (map line_quantity (filter (\<lambda>l. productId l = pid) ls))"

fun received :: "nat \<Rightarrow> operation \<Rightarrow> int" where
  "received pid (Receive product_id qty cost receivedBy sname snotes) =
     (if product_id = pid then qty else 0)"
| "received pid (Sell rnds cashier_id pm tp lineItems notes) = 0"

fun sold :: "nat \<Rightarrow> operation \<Rightarrow> int" where
  "sold pid (Receive product_id qty cost receivedBy sname snotes) = 0"
| "sold pid (Sell rnds cashier_id pm tp lineItems notes) = line_total pid lineItems"

text \<open>The stock of a product, \<open>None\<close> when there is no such product.\<close>

definition stock :: "store \<Rightarrow> nat \<Rightarrow> int option" where
  "stock st pid = map_option stock_quantity (lookup (products st) pid)"

definition stocks_nonneg :: "store \<Rightarrow> bool" where
  "stocks_nonneg st = list_all (\<lambda>(k, p). 0 \<le> stock_quantity p) (rows (products st))"

section \<open>Invariants of the store\<close>

text \<open>The primary keys of a table are distinct and none exceeds \<open>seq\<close>.\<close>

definition table_ok :: "'a table \<Rightarrow> bool" where
  "table_ok t = (distinct (keys t) \<and> list_all (\<lambda>k. k \<le> seq t) (keys t))"

text \<open>No two rows of \<^verbatim>\<open>sales\<close> share an order id.\<close>

definition sales_unique :: "store \<Rightarrow> bool" where
  "sales_unique st =
     (table_ok (sales st) \<and> distinct (map (\<lambda>(k, s). order_id s) (rows (sales st))))"

text \<open>
  The rows of the SaleItems of one Sale, and what the totals of every Sale must be. A
  stored \<^verbatim>\<open>subtotal\<close> or \<^verbatim>\<open>profit\<close> is never \<^verbatim>\<open>NULL\<close>; \<open>field_value\<close> reads it.
\<close>

definition field_value :: "decimal option \<Rightarrow> decimal" where
  "field_value v = (case v of None \<Rightarrow> 0 | Some d \<Rightarrow> d)"

definition items_of :: "store \<Rightarrow> nat \<Rightarrow> (nat \<times> SaleItem) list" where
  "items_of st k = filter (\<lambda>(_, i). sale i = k) (rows (sale_items st))"

definition totals_ok :: "store \<Rightarrow> bool" where
  "totals_ok st =
     list_all (\<lambda>(k, s).
         sale_subtotal s = sum_list (map (\<lambda>(_, i). field_value (subtotal i)) (items_of st k))
         \<and> sale_profit s = sum_list (map (\<lambda>(_, i). field_value (profit i)) (items_of st k))
         \<and> total s = sale_subtotal s + tax s)
       (rows (sales st))"

text \<open>What every reachable store satisfies.\<close>

definition store_inv :: "store \<Rightarrow> bool" where
  "store_inv st = (totals_ok st \<and> table_ok (sales st) \<and> fk_ok st)"

text \<open>
  The stores the core can reach from the empty one: users come from the identity
  provider, Products from catalogue management (any \<^verbatim>\<open>Product.save\<close> that succeeds),
  receipts and sales from the two operations of the core, and rows go by
  \<^verbatim>\<open>delete\<close>. No operation updates a committed Sale or SaleItem.
\<close>

inductive reachable :: "store \<Rightarrow> bool" where
  initial: "reachable empty_store"
| add_user: "reachable st \<Longrightarrow> reachable (st\<lparr>users := snd (insert_row (users st) u)\<rparr>)"
| save_product: "reachable st \<Longrightarrow> Product_save st pk p = (Inr k, st') \<Longrightarrow> reachable st'"
| receipt:
    "reachable st \<Longrightarrow> recordReceipt st pid q c rcv sn nt = (Inr x, st') \<Longrightarrow> reachable st'"
| sale_created:
    "reachable st \<Longrightarrow> createSale st rnds cid pm tp ls nt = (Inr y, st') \<Longrightarrow> reachable st'"
| delete_sale: "reachable st \<Longrightarrow> Sale_delete st k = (Inr (), st') \<Longrightarrow> reachable st'"
| delete_product: "reachable st \<Longrightarrow> Product_delete st k = (Inr (), st') \<Longrightarrow> reachable st'"

section \<open>Example data\<close>

text \<open>
  The lipstick of the specification's snapshot example: bought at 10.00, sold at 18.00.
  Five were received and two sold in one sale, so three are in stock.
\<close>

definition example_product :: Product where
  "example_product =
     \<lparr>sku = ''LIP-001'', name = ''Velvet Lipstick'', brand = ''Cosmo'', category = ''LIPS'',
      description = [], cost_price = 10, selling_price = 18, stock_quantity = 3,
      restock_threshold = 10, is_active = True\<rparr>"

definition example_receipt :: StockReceipt where
  "example_receipt =
     \<lparr>receipt_product = 1, receipt_quantity = 5, cost_price_at_receipt = 10,
      supplier_name = [], supplier_notes = [], received_by = 1\<rparr>"

definition example_sale :: Sale where
  "example_sale =
     \<lparr>order_id = ''#ORD-0A1B2C3D'', cashier = 1, sale_subtotal = 36, tax = 0, total = 36,
      sale_profit = 16, payment_method = ''CASH'', sale_notes = []\<rparr>"

definition example_item :: SaleItem where
  "example_item =
     \<lparr>sale = 1, product = 1, quantity = 2, unit_price = 18, unit_cost = 10,
      subtotal = Some 36, profit = Some 16\<rparr>"

definition example_store :: store where
  "example_store =
     \<lparr>users = \<lparr>rows = [(1, \<lparr>username = ''asha'', role = ''EMPLOYEE''\<rparr>)], seq = 1\<rparr>,
      products = \<lparr>rows = [(1, example_product)], seq = 1\<rparr>,
      stock_receipts = \<lparr>rows = [(1, example_receipt)], seq = 1\<rparr>,
      sales = \<lparr>rows = [(1, example_sale)], seq = 1\<rparr>,
      sale_items = \<lparr>rows = [(1, example_item)], seq = 1\<rparr>\<rparr>"

text \<open>
  The same shop before the five lipsticks arrived, and after they were received but
  before the sale.
\<close>

definition example_catalog :: store where
  "example_catalog =
     \<lparr>users = \<lparr>rows = [(1, \<lparr>username = ''asha'', role = ''EMPLOYEE''\<rparr>)], seq = 1\<rparr>,
      products = \<lparr>rows = [(1, example_product\<lparr>stock_quantity := 0\<rparr>)], seq = 1\<rparr>,
      stock_receipts = empty_table, sales = empty_table, sale_items = empty_table\<rparr>"

definition example_received :: store where
  "example_received =
     example_catalog
       \<lparr>products := \<lparr>rows = [(1, example_product\<lparr>stock_quantity := 5\<rparr>)], seq = 1\<rparr>,
        stock_receipts := \<lparr>rows = [(1, example_receipt)], seq = 1\<rparr>\<rparr>"

section \<open>Verification\<close>

subsection \<open>Evaluating the definitions on numerals\<close>

lemma floor_rat_divide_numeral:
  "\<lfloor>numeral a / numeral b :: rat\<rfloor> = numeral a div numeral b"
  using floor_divide_of_int_eq [of "numeral a" "numeral b", where ?'a = rat] by simp

lemmas dec_eval = dec_round_def floor_log10_def pow10_def round_half_even_def Let_def
  digits10.simps floor_rat_divide_numeral

lemmas validator_defs = MinValueValidator_def MaxValueValidator_def MaxLengthValidator_def
  DecimalValidator_def field_errors_def CharField_def DecimalField_def DecimalField_opt_def
  PositiveIntegerField_def ForeignKey_def

lemmas example_defs = example_store_def example_product_def example_receipt_def
  example_sale_def example_item_def

lemma upt8: "[0..<8] = [0, 1, 2, 3, 4, 5, 6, 7]"
  by (simp add: upt_rec)

lemma example_store_fk_ok: "fk_ok example_store"
  by (simp add: fk_ok_def keys_def example_defs)

lemma example_store_sales_unique: "sales_unique example_store"
  by (simp add: sales_unique_def table_ok_def keys_def example_defs)

subsection \<open>The derived values of a Product\<close>

text \<open>Python's results for the same quotients, ties included.\<close>

lemma dec_div_examples:
  "dec_div 1 3 = Inr (3333333333333333333333333333 / 10000000000000000000000000000)"
  "dec_div 2 3 = Inr (6666666666666666666666666667 / 10000000000000000000000000000)"
  "dec_div 1 4 = Inr (1 / 4)"
  "dec_div 800 7 = Inr (1142857142857142857142857143 / 10000000000000000000000000)"
  "dec_div 2000000000000000000000000001 2 = Inr 1000000000000000000000000000"
  "dec_div 2000000000000000000000000003 2 = Inr 1000000000000000000000000002"
  "dec_div 5 0 = Inl ZeroDivisionError"
  by (simp_all add: dec_div_def dec_eval)

text \<open>
  Claim C9. \<^verbatim>\<open>needs_restock\<close> is true exactly when the stock is at or below the
  threshold; \<^verbatim>\<open>profit_per_unit\<close> is the selling price less the cost price;
  \<^verbatim>\<open>profit_percentage\<close> never fails, and is the quotient of the profit per unit by the
  cost price (as Python's \<^verbatim>\<open>Decimal\<close> division gives it, to 28 significant digits)
  times 100 when the cost price is positive, and 0 otherwise.
\<close>

theorem product_derived_values:
  "needs_restock p = (stock_quantity p \<le> restock_threshold p)
   \<and> profit_per_unit p = selling_price p - cost_price p
   \<and> profit_percentage p =
       Inr (if 0 < cost_price p
            then dec_round 28 (profit_per_unit p / cost_price p) * 100 else 0)"
  by (simp add: needs_restock_def profit_per_unit_def profit_percentage_def dec_div_def)

theorem product_derived_values_witness:
  "needs_restock \<lparr>sku = ''L-1'', name = ''Velvet Lipstick'', brand = ''Cosmo'', category = ''LIPS'',
      description = [], cost_price = 3, selling_price = 4, stock_quantity = 10,
      restock_threshold = 10, is_active = True\<rparr>
   \<and> profit_per_unit \<lparr>sku = ''L-1'', name = ''Velvet Lipstick'', brand = ''Cosmo'', category = ''LIPS'',
      description = [], cost_price = 3, selling_price = 4, stock_quantity = 10,
      restock_threshold = 10, is_active = True\<rparr> = 1
   \<and> profit_percentage \<lparr>sku = ''L-1'', name = ''Velvet Lipstick'', brand = ''Cosmo'', category = ''LIPS'',
      description = [], cost_price = 3, selling_price = 4, stock_quantity = 10,
      restock_threshold = 10, is_active = True\<rparr>
     = Inr (3333333333333333333333333333 / 100000000000000000000000000)"
proof -
  have ev: "dec_round 28 (1 / 3) = 3333333333333333333333333333 / 10000000000000000000000000000"
    by (simp add: dec_eval)
  show ?thesis
    using product_derived_values [of "\<lparr>sku = ''L-1'', name = ''Velvet Lipstick'',
      brand = ''Cosmo'', category = ''LIPS'', description = [], cost_price = 3,
      selling_price = 4, stock_quantity = 10, restock_threshold = 10, is_active = True\<rparr>"]
    by (simp add: profit_per_unit_def ev)
qed

subsection \<open>\<^verbatim>\<open>SaleItem.save\<close>\<close>

lemma SaleItem_pre_save_absent:
  "subtotal i = None \<Longrightarrow> profit i = None \<Longrightarrow>
   SaleItem_pre_save i = i\<lparr>subtotal := Some (unit_price i * of_int (quantity i)),
                             profit := Some ((unit_price i - unit_cost i) * of_int (quantity i))\<rparr>"
  by (simp add: SaleItem_pre_save_def py_not_def)

lemma SaleItem_pre_save_nonzero:
  "subtotal i = Some a \<Longrightarrow> profit i = Some b \<Longrightarrow> a \<noteq> 0 \<Longrightarrow> b \<noteq> 0 \<Longrightarrow>
   SaleItem_pre_save i = i"
  by (simp add: SaleItem_pre_save_def py_not_def)

text \<open>
  Claim C5, at the input where the code departs from it. A SaleItem for 2 units at 18.00
  that cost 10.00 each is saved with the subtotal 36.00 and the profit 0.00 supplied by the
  caller. \<^verbatim>\<open>not self.profit\<close> is true of a zero, so \<^verbatim>\<open>save\<close> takes the supplied
  profit for a missing one and stores 16.00 in its place.
\<close>

theorem saleitem_save_zero_profit_recomputed:
  "SaleItem_pre_save \<lparr>sale = 1, product = 1, quantity = 2, unit_price = 18, unit_cost = 10,
       subtotal = Some 36, profit = Some 0\<rparr>
   = \<lparr>sale = 1, product = 1, quantity = 2, unit_price = 18, unit_cost = 10,
       subtotal = Some 36, profit = Some 16\<rparr>"
  by (simp add: SaleItem_pre_save_def py_not_def)

subsection \<open>Validation of the monetary fields\<close>

text \<open>
  Claim C6 as stated fails: \<^verbatim>\<open>profit\<close> of a Sale carries no \<^verbatim>\<open>MinValueValidator\<close>,
  and a Sale whose profit is -5.00 passes \<^verbatim>\<open>full_clean\<close>.
\<close>

theorem sale_negative_profit_accepted:
  "Sale_full_clean
     \<lparr>users = \<lparr>rows = [(1, \<lparr>username = ''asha'', role = ''EMPLOYEE''\<rparr>)], seq = 1\<rparr>,
      products = empty_table, stock_receipts = empty_table, sales = empty_table,
      sale_items = empty_table\<rparr>
     None
     \<lparr>order_id = ''#ORD-00000001'', cashier = 1, sale_subtotal = 10, tax = 1, total = 11,
      sale_profit = - 5, payment_method = ''CASH'', sale_notes = []\<rparr> = []"
  by (simp add: Sale_full_clean_def Sale_clean_fields_def validator_defs decimal_fits_def
        PAYMENT_METHODS_def keys_def empty_table_def)

text \<open>
  Claim C6, amended. Validation rejects a Sale whose subtotal, tax or total is negative.
  The profit has no lower bound: a Sale with the profit \<open>x\<close> is accepted exactly when
  the same Sale with the profit 0 is accepted and \<open>x\<close> fits the 10 digits and 2 decimal
  places of the field, whatever its sign.
\<close>

theorem sale_money_validation:
  "(sale_subtotal s < 0 \<or> tax s < 0 \<or> total s < 0 \<longrightarrow> Sale_full_clean st pk s \<noteq> [])
   \<and> ((Sale_full_clean st pk (s\<lparr>sale_profit := x\<rparr>) = [])
        = (Sale_full_clean st pk (s\<lparr>sale_profit := 0\<rparr>) = [] \<and> decimal_fits 10 2 x))"
  by (auto simp: Sale_full_clean_def Sale_clean_fields_def validator_defs decimal_fits_def)

theorem sale_money_validation_witness:
  "tax (example_sale\<lparr>order_id := ''#ORD-00000002'', tax := - 1\<rparr>) < 0
   \<and> Sale_full_clean example_store None (example_sale\<lparr>order_id := ''#ORD-00000002'', tax := - 1\<rparr>) \<noteq> []
   \<and> decimal_fits 10 2 (- 5)
   \<and> Sale_full_clean example_store None
         (example_sale\<lparr>order_id := ''#ORD-00000002'', sale_profit := - 5\<rparr>) = []"
proof -
  let ?s = "example_sale\<lparr>order_id := ''#ORD-00000002''\<rparr>"
  have neg: "tax (?s\<lparr>tax := - 1\<rparr>) < 0" by simp
  have fits: "decimal_fits 10 2 (- 5)" by (simp add: decimal_fits_def)
  have zero: "Sale_full_clean example_store None (?s\<lparr>sale_profit := 0\<rparr>) = []"
    by (simp add: Sale_full_clean_def Sale_clean_fields_def validator_defs decimal_fits_def
        PAYMENT_METHODS_def keys_def example_defs)
  from sale_money_validation [of "?s\<lparr>tax := - 1\<rparr>" example_store None "- 5"] neg
  have a: "Sale_full_clean example_store None (?s\<lparr>tax := - 1\<rparr>) \<noteq> []" by blast
  from sale_money_validation [of ?s example_store None "- 5"] zero fits
  have b: "Sale_full_clean example_store None (?s\<lparr>sale_profit := - 5\<rparr>) = []" by blast
  from neg a fits b show ?thesis by simp
qed

text \<open>
  Claim C10. \<^verbatim>\<open>unit_price\<close> and \<^verbatim>\<open>unit_cost\<close> of a SaleItem carry no minimum: with
  any two values that fit the fields' 10 digits and 2 decimal places, zero and negative
  ones too, the item is accepted exactly when it is accepted with both set to 1.00. An
  accepted item has a quantity of at least 1, and an accepted Product has a cost price
  and a selling price of at least 0.01.
\<close>

theorem saleitem_prices_unconstrained:
  "(decimal_fits 10 2 u \<and> decimal_fits 10 2 c \<longrightarrow>
      (SaleItem_full_clean st (i\<lparr>unit_price := u, unit_cost := c\<rparr>) = [])
      = (SaleItem_full_clean st (i\<lparr>unit_price := 1, unit_cost := 1\<rparr>) = []))
   \<and> (SaleItem_full_clean st i = [] \<longrightarrow> 1 \<le> quantity i)
   \<and> (Product_clean_fields p = [] \<longrightarrow> 1 / 100 \<le> cost_price p \<and> 1 / 100 \<le> selling_price p)"
  by (auto simp: SaleItem_full_clean_def Product_clean_fields_def validator_defs decimal_fits_def
           split: if_splits)

theorem saleitem_prices_unconstrained_witness:
  "decimal_fits 10 2 (- 5) \<and> decimal_fits 10 2 0
   \<and> SaleItem_full_clean example_store (example_item\<lparr>unit_price := - 5, unit_cost := 0\<rparr>) = []
   \<and> 1 \<le> quantity (example_item\<lparr>unit_price := - 5, unit_cost := 0\<rparr>)
   \<and> Product_clean_fields example_product = []
   \<and> 1 / 100 \<le> cost_price example_product \<and> 1 / 100 \<le> selling_price example_product"
proof -
  let ?i = "example_item\<lparr>unit_price := - 5, unit_cost := 0\<rparr>"
  have fits: "decimal_fits 10 2 (- 5)" "decimal_fits 10 2 0" by (simp_all add: decimal_fits_def)
  have one: "SaleItem_full_clean example_store (example_item\<lparr>unit_price := 1, unit_cost := 1\<rparr>) = []"
    by (simp add: SaleItem_full_clean_def validator_defs decimal_fits_def keys_def example_defs)
  have prod: "Product_clean_fields example_product = []"
    by (simp add: Product_clean_fields_def validator_defs decimal_fits_def CATEGORY_CHOICES_def
          example_defs)
  note inst = saleitem_prices_unconstrained [of "- 5" 0 example_store example_item example_product]
  from inst fits one have a: "SaleItem_full_clean example_store ?i = []" by blast
  from saleitem_prices_unconstrained [of "- 5" 0 example_store ?i example_product] a
  have q: "1 \<le> quantity ?i" by blast
  from inst prod have p: "1 / 100 \<le> cost_price example_product \<and> 1 / 100 \<le> selling_price example_product"
    by blast
  from fits a q prod p show ?thesis by blast
qed

subsection \<open>The generated order id\<close>

lemma upper_hex_digit: "n < 16 \<Longrightarrow> upper_char (hex_digit n) \<in> set ''0123456789ABCDEF''"
proof -
  have "list_all (\<lambda>k. upper_char (hex_digit k) \<in> set ''0123456789ABCDEF'') [0..<16]"
    by (simp add: upt_rec hex_digit_def upper_char_def)
  moreover assume "n < 16"
  ultimately show ?thesis by (simp add: list_all_iff)
qed

lemma hex_digit_mod: "hex_digit n = hex_digit (n mod 16)"
  by (simp add: hex_digit_def)

lemma length_hex: "length (hex w) = 32"
  by (simp add: hex_def)

lemma set_upper_hex: "set (upper (take 8 (hex w))) \<subseteq> set ''0123456789ABCDEF''"
proof
  fix c assume "c \<in> set (upper (take 8 (hex w)))"
  then obtain d where d: "d \<in> set (hex w)" and c: "c = upper_char d"
    by (auto simp: upper_def dest: in_set_takeD)
  from d obtain n where "d = hex_digit n" by (auto simp: hex_def)
  then have "d = hex_digit (n mod 16)" using hex_digit_mod by simp
  with c show "c \<in> set ''0123456789ABCDEF''"
    using upper_hex_digit [of "n mod 16"] by simp
qed

lemma length_new_suffix: "length (upper (take 8 (hex w))) = 8"
  by (simp add: upper_def length_hex)

lemma uuid4_masks:
  "uuid4 r =
     (((r AND NOT (push_bit 62 (mask 2))) OR push_bit 63 1)
        AND NOT (push_bit 76 (mask 4))) OR push_bit 78 1"
  by (simp add: uuid4_def mask_eq_exp_minus_1)

lemma uuid4_top_bits: "80 \<le> n \<Longrightarrow> bit (uuid4 r) n = bit r n"
  unfolding uuid4_masks
  apply (simp only: bit_simps)
  apply (auto dest: bit_imp_le_length)
  done

lemma hex_uuid4_prefix: "take 8 (hex (uuid4 r)) = take 8 (hex r)"
proof -
  have "unat (drop_bit (4 * (31 - i)) (uuid4 r) AND 0xF) = unat (drop_bit (4 * (31 - i)) r AND 0xF)"
    if "i < 8" for i
  proof -
    have "drop_bit (4 * (31 - i)) (uuid4 r) = drop_bit (4 * (31 - i)) r"
      using that by (intro bit_word_eqI) (auto simp: bit_simps uuid4_top_bits)
    then show ?thesis by simp
  qed
  then have "map (\<lambda>i. hex_digit (unat (drop_bit (4 * (31 - i)) (uuid4 r) AND 0xF))) [0..<8]
      = map (\<lambda>i. hex_digit (unat (drop_bit (4 * (31 - i)) r AND 0xF))) [0..<8]"
    by simp
  then show ?thesis by (simp add: hex_def take_map)
qed

lemma example_order_id:
  "upper (take 8 (hex (0xDEADBEEF0123456789ABCDEF01234567 :: 128 word))) = ''DEADBEEF''"
proof -
  have "take 8 (hex w) = map (\<lambda>i. hex_digit (unat (drop_bit (4 * (31 - i)) w AND 0xF))) [0..<8]"
    for w :: "128 word"
    by (simp add: hex_def take_map)
  then show ?thesis
    by (simp add: upt8 upper_def hex_digit_def upper_char_def)
qed

subsection \<open>Writing a row of a table\<close>

lemma map_of_map_values:
  "map_of (map (\<lambda>(k', y). (k', g k' y)) rs) j = map_option (g j) (map_of rs j)"
  by (induction rs) auto

lemma map_of_update_rows:
  "map_of (map (\<lambda>(k', y). (k', if k' = k then x else y)) rs) j =
     (if j = k \<and> k \<in> fst ` set rs then Some x else map_of rs j)"
proof -
  have "map_of rs j = None \<longleftrightarrow> j \<notin> fst ` set rs"
    by (simp add: map_of_eq_None_iff)
  then show ?thesis
    unfolding map_of_map_values [where g = "\<lambda>k' y. if k' = k then x else y"]
    by (cases "map_of rs j") auto
qed

lemma fst_map_values [simp]: "fst (case a of (k', y) \<Rightarrow> (k', g k' y)) = fst a"
  by (cases a) simp

lemma keys_update_rows [simp]:
  "map fst (map (\<lambda>(k', y). (k', g k' y)) rs) = map fst rs"
  by (induction rs) auto

lemma fst_comp_map_values [simp]: "fst \<circ> (\<lambda>(k', y). (k', g k' y)) = fst"
  by (auto simp: fun_eq_iff)

lemma table_ok_iff:
  "table_ok t = (distinct (map fst (rows t)) \<and> (\<forall>k \<in> fst ` set (rows t). k \<le> seq t))"
  by (auto simp: table_ok_def keys_def list_all_iff)

lemma save_row_cases:
  assumes "save_row t pk x = (k, t')"
  obtains
    (fresh) "pk = None" "k = Suc (seq t)"
      "rows t' = rows t @ [(k, x)]" "seq t' = Suc (seq t)"
  | (update) "pk = Some k" "k \<in> fst ` set (rows t)"
      "rows t' = map (\<lambda>(k', y). (k', if k' = k then x else y)) (rows t)" "seq t' = seq t"
  | (given) "pk = Some k" "k \<notin> fst ` set (rows t)"
      "rows t' = rows t @ [(k, x)]" "seq t' = max (seq t) k"
proof (cases pk)
  case None
  with assms show ?thesis
    by (intro fresh) (auto simp: save_row_def insert_row_def Let_def)
next
  case (Some j)
  show ?thesis
  proof (cases "j \<in> fst ` set (rows t)")
    case True
    with Some assms show ?thesis
      by (intro update) (auto simp: save_row_def update_row_def keys_def)
  next
    case False
    with Some assms show ?thesis
      by (intro given) (auto simp: save_row_def keys_def)
  qed
qed

lemma table_ok_save_row:
  assumes ok: "table_ok t" and sv: "save_row t pk x = (k, t')"
  shows "table_ok t'"
  using sv
proof (cases rule: save_row_cases)
  case fresh
  with ok show ?thesis by (fastforce simp: table_ok_iff)
next
  case update
  with ok show ?thesis by (simp add: table_ok_iff)
next
  case given
  with ok show ?thesis by (fastforce simp: table_ok_iff)
qed

lemma lookup_save_row:
  assumes ok: "table_ok t" and sv: "save_row t pk x = (k, t')"
  shows "lookup t' j = (if j = k then Some x else lookup t j)"
  using sv
proof (cases rule: save_row_cases)
  case fresh
  with ok have "k \<notin> fst ` set (rows t)" by (fastforce simp: table_ok_iff)
  then have "map_of (rows t) k = None" by (simp add: map_of_eq_None_iff)
  with fresh show ?thesis
    by (simp add: lookup_def map_add_def split: option.splits)
next
  case update
  then show ?thesis by (simp add: lookup_def map_of_update_rows)
next
  case given
  then have "map_of (rows t) k = None" by (simp add: map_of_eq_None_iff)
  with given show ?thesis
    by (simp add: lookup_def map_add_def split: option.splits)
qed

lemma distinct_update_rows:
  assumes "distinct (map fst rs)" "distinct (map (\<lambda>(k', y). f y) rs)"
    and "\<forall>(k', y) \<in> set rs. k' \<noteq> k \<longrightarrow> f y \<noteq> f x"
  shows "distinct (map (\<lambda>(k', y). f y)
           (map (\<lambda>(k', y). (k', if k' = k then x else y)) rs))"
  using assms
proof (induction rs)
  case Nil
  then show ?case by simp
next
  case (Cons a rs)
  obtain ka ya where a: "a = (ka, ya)" by (cases a)
  from Cons.prems have IH: "distinct (map (\<lambda>(k', y). f y)
           (map (\<lambda>(k', y). (k', if k' = k then x else y)) rs))"
    by (intro Cons.IH) auto
  show ?case
  proof (cases "ka = k")
    case True
    with Cons.prems a have notin: "k \<notin> fst ` set rs" by auto
    then have same: "map (\<lambda>(k', y). (k', if k' = k then x else y)) rs = rs"
      by (induction rs) auto
    from Cons.prems a notin have "\<forall>(k', y) \<in> set rs. f y \<noteq> f x"
      by force
    with Cons.prems a True same show ?thesis by auto
  next
    case False
    with Cons.prems a IH show ?thesis by (auto split: if_splits)
  qed
qed

lemma atomic_Inr:
  "atomic body st = (Inr v, st') \<longleftrightarrow> body st = Inr (v, st') \<and> fk_ok st'"
  by (auto simp: atomic_def split: sum.splits if_splits)

lemma atomic_Inl_store: "atomic body st = (Inl e, st') \<Longrightarrow> st' = st"
  by (auto simp: atomic_def split: sum.splits if_splits)

lemma Sale_save_Inr:
  assumes "Sale_save r st pk s = (Inr k, st')"
  obtains t where "save_row (sales st) pk (Sale_pre_save r s) = (k, t)"
    and "st' = st\<lparr>sales := t\<rparr>"
    and "\<not> list_ex (\<lambda>(k', s'). Some k' \<noteq> pk \<and> order_id s' = order_id (Sale_pre_save r s))
            (rows (sales st))"
    and "fk_ok st'"
  using assms
  by (auto simp: Sale_save_def atomic_Inr Sale_db_save_def Let_def split: if_splits prod.splits)

lemma sales_unique_save:
  assumes uq: "sales_unique st" and sv: "Sale_save r st pk s = (Inr k, st')"
  shows "sales_unique st'"
proof -
  let ?s = "Sale_pre_save r s"
  from sv obtain t where t: "save_row (sales st) pk ?s = (k, t)"
    and st': "st' = st\<lparr>sales := t\<rparr>"
    and nodup: "\<not> list_ex (\<lambda>(k', s'). Some k' \<noteq> pk \<and> order_id s' = order_id ?s) (rows (sales st))"
    by (rule Sale_save_Inr)
  from uq have ok: "table_ok (sales st)"
    and d: "distinct (map (\<lambda>(k, s). order_id s) (rows (sales st)))"
    by (simp_all add: sales_unique_def)
  from ok t have ok': "table_ok t" by (rule table_ok_save_row)
  from nodup have other: "\<forall>(k', s') \<in> set (rows (sales st)). Some k' \<noteq> pk \<longrightarrow> order_id s' \<noteq> order_id ?s"
    by (auto simp: list_ex_iff)
  have "distinct (map (\<lambda>(k, s). order_id s) (rows t))"
    using t
  proof (cases rule: save_row_cases)
    case fresh
    with d other show ?thesis by (auto simp: image_iff)
  next
    case update
    from ok have dk: "distinct (map fst (rows (sales st)))" by (simp add: table_ok_iff)
    from other update have "\<forall>(k', s') \<in> set (rows (sales st)). k' \<noteq> k \<longrightarrow> order_id s' \<noteq> order_id ?s"
      by auto
    with dk d have "distinct (map (\<lambda>(k', y). order_id y)
           (map (\<lambda>(k', y). (k', if k' = k then ?s else y)) (rows (sales st))))"
      by (intro distinct_update_rows)
    with update show ?thesis by simp
  next
    case given
    with other have "\<forall>(k', s') \<in> set (rows (sales st)). order_id s' \<noteq> order_id ?s"
      by force
    with d given show ?thesis by (auto simp: image_iff)
  qed
  with ok' st' show ?thesis by (simp add: sales_unique_def)
qed

lemma Sale_save_duplicate:
  assumes "list_ex (\<lambda>(k', s'). Some k' \<noteq> pk \<and> order_id s' = order_id (Sale_pre_save r s))
            (rows (sales st))"
  shows "Sale_save r st pk s = (Inl IntegrityError, st)"
  using assms by (simp add: Sale_save_def atomic_def Sale_db_save_def)

text \<open>
  Claim C7. Saved without an order id, a Sale gets \<^verbatim>\<open>#ORD-\<close> followed by 8 upper-case
  hexadecimal digits, the 32 leading bits of the random 128-bit draw \<open>r\<close>; an order id
  the caller supplied is kept. The table refuses a second row with an order id it already
  holds (\<^verbatim>\<open>IntegrityError\<close>, the store unchanged), and a save that succeeds keeps the
  order ids of the committed Sales distinct.
\<close>

theorem sale_save_order_id:
  "(order_id s = [] \<longrightarrow>
      order_id (Sale_pre_save r s) = ''#ORD-'' @ upper (take 8 (hex r))
      \<and> length (upper (take 8 (hex r))) = 8
      \<and> set (upper (take 8 (hex r))) \<subseteq> set ''0123456789ABCDEF'')
   \<and> (order_id s \<noteq> [] \<longrightarrow> Sale_pre_save r s = s)
   \<and> (sales_unique st \<and> Sale_save r st pk s = (Inr k, st') \<longrightarrow>
        sales_unique st' \<and> lookup (sales st') k = Some (Sale_pre_save r s))
   \<and> (list_ex (\<lambda>(k', s'). Some k' \<noteq> pk \<and> order_id s' = order_id (Sale_pre_save r s))
         (rows (sales st)) \<longrightarrow>
        Sale_save r st pk s = (Inl IntegrityError, st))"
proof (intro conjI impI)
  assume "order_id s = []"
  then show "order_id (Sale_pre_save r s) = ''#ORD-'' @ upper (take 8 (hex r))"
    by (simp add: Sale_pre_save_def new_order_id_def hex_uuid4_prefix)
next
  show "length (upper (take 8 (hex r))) = 8" by (rule length_new_suffix)
next
  show "set (upper (take 8 (hex r))) \<subseteq> set ''0123456789ABCDEF''" by (rule set_upper_hex)
next
  assume "order_id s \<noteq> []"
  then show "Sale_pre_save r s = s" by (simp add: Sale_pre_save_def)
next
  assume a: "sales_unique st \<and> Sale_save r st pk s = (Inr k, st')"
  then show "sales_unique st'" by (blast intro: sales_unique_save)
  from a obtain t where t: "save_row (sales st) pk (Sale_pre_save r s) = (k, t)"
    and st': "st' = st\<lparr>sales := t\<rparr>"
    by (blast elim: Sale_save_Inr)
  from a have "table_ok (sales st)" by (simp add: sales_unique_def)
  from lookup_save_row [OF this t, of k] st'
  show "lookup (sales st') k = Some (Sale_pre_save r s)" by simp
next
  assume "list_ex (\<lambda>(k', s'). Some k' \<noteq> pk \<and> order_id s' = order_id (Sale_pre_save r s))
         (rows (sales st))"
  then show "Sale_save r st pk s = (Inl IntegrityError, st)" by (rule Sale_save_duplicate)
qed

theorem sale_save_order_id_witness:
  "order_id (example_sale\<lparr>order_id := []\<rparr>) = []
   \<and> order_id (Sale_pre_save 0xDEADBEEF0123456789ABCDEF01234567 (example_sale\<lparr>order_id := []\<rparr>))
       = ''#ORD-DEADBEEF''
   \<and> order_id example_sale \<noteq> []
   \<and> Sale_pre_save 0xDEADBEEF0123456789ABCDEF01234567 example_sale = example_sale
   \<and> sales_unique example_store
   \<and> fst (Sale_save 0xDEADBEEF0123456789ABCDEF01234567 example_store None
             (example_sale\<lparr>order_id := []\<rparr>)) = Inr 2
   \<and> sales_unique (snd (Sale_save 0xDEADBEEF0123456789ABCDEF01234567 example_store None
                          (example_sale\<lparr>order_id := []\<rparr>)))
   \<and> lookup (sales (snd (Sale_save 0xDEADBEEF0123456789ABCDEF01234567 example_store None
                              (example_sale\<lparr>order_id := []\<rparr>)))) 2
       = Some (example_sale\<lparr>order_id := ''#ORD-DEADBEEF''\<rparr>)
   \<and> Sale_save 0xDEADBEEF0123456789ABCDEF01234567 example_store None example_sale
       = (Inl IntegrityError, example_store)"
proof -
  let ?r = "0xDEADBEEF0123456789ABCDEF01234567 :: 128 word"
  let ?s = "example_sale\<lparr>order_id := []\<rparr>"
  let ?s' = "example_sale\<lparr>order_id := ''#ORD-DEADBEEF''\<rparr>"
  let ?st' = "example_store\<lparr>sales := \<lparr>rows = [(1, example_sale), (2, ?s')], seq = 2\<rparr>\<rparr>"
  have e: "order_id ?s = []" by simp
  have n: "order_id example_sale \<noteq> []" by (simp add: example_sale_def)
  from sale_save_order_id [of ?s ?r example_store None 2 ?st'] e
  have pre: "Sale_pre_save ?r ?s = ?s'"
    by (simp add: Sale_pre_save_def example_order_id)
  from sale_save_order_id [of example_sale ?r example_store None 2 ?st'] n
  have kept: "Sale_pre_save ?r example_sale = example_sale" by blast
  have fk: "fk_ok ?st'" by (simp add: fk_ok_def keys_def example_defs)
  have "Sale_db_save example_store None ?s' = Inr (2, ?st')"
    by (simp add: Sale_db_save_def save_row_def insert_row_def example_defs)
  with fk have sv: "Sale_save ?r example_store None ?s = (Inr 2, ?st')"
    by (simp add: Sale_save_def atomic_def pre)
  from sale_save_order_id [of ?s ?r example_store None 2 ?st']
  have "sales_unique example_store \<and> Sale_save ?r example_store None ?s = (Inr 2, ?st') \<longrightarrow>
      sales_unique ?st' \<and> lookup (sales ?st') 2 = Some (Sale_pre_save ?r ?s)"
    by (rule conjunct1 [OF conjunct2 [OF conjunct2]])
  with sv example_store_sales_unique
  have "sales_unique ?st' \<and> lookup (sales ?st') 2 = Some (Sale_pre_save ?r ?s)" by blast
  then have uq: "sales_unique ?st'" and lk: "lookup (sales ?st') 2 = Some ?s'"
    by (simp_all only: pre)
  have dup: "list_ex (\<lambda>(k', s'). Some k' \<noteq> None \<and> order_id s' = order_id (Sale_pre_save ?r example_sale))
         (rows (sales example_store))"
    by (simp add: kept) (simp add: example_defs)
  with sale_save_order_id [of example_sale ?r example_store None 2 ?st']
  have rej: "Sale_save ?r example_store None example_sale = (Inl IntegrityError, example_store)"
    by blast
  from e pre n kept example_store_sales_unique sv uq lk rej show ?thesis by simp
qed

subsection \<open>Price changes and deletions\<close>

text \<open>
  Claim C3. Saving a Product, with whatever selling price and cost price, leaves the
  table of the SaleItems (and that of the Sales) as it was, whether the save succeeds or
  fails: the \<^verbatim>\<open>unit_price\<close>, \<^verbatim>\<open>unit_cost\<close>, \<^verbatim>\<open>subtotal\<close> and \<^verbatim>\<open>profit\<close>
  of every existing SaleItem are columns of its own row.
\<close>

theorem product_update_keeps_sale_items:
  "sale_items (snd (Product_save st pk p)) = sale_items st
   \<and> sales (snd (Product_save st pk p)) = sales st"
  by (auto simp: Product_save_def atomic_def Product_db_save_def Let_def
           split: sum.splits if_splits prod.splits)

theorem product_update_keeps_sale_items_witness:
  "fst (Product_save example_store (Some 1) (example_product\<lparr>selling_price := 25\<rparr>)) = Inr 1
   \<and> lookup (products (snd (Product_save example_store (Some 1)
                (example_product\<lparr>selling_price := 25\<rparr>)))) 1
       = Some (example_product\<lparr>selling_price := 25\<rparr>)
   \<and> lookup (sale_items (snd (Product_save example_store (Some 1)
                (example_product\<lparr>selling_price := 25\<rparr>)))) 1 = Some example_item
   \<and> unit_price example_item = 18"
proof -
  let ?p = "example_product\<lparr>selling_price := 25\<rparr>"
  let ?st' = "example_store\<lparr>products := \<lparr>rows = [(1, ?p)], seq = 1\<rparr>\<rparr>"
  have fk: "fk_ok ?st'" by (simp add: fk_ok_def keys_def example_defs)
  have "Product_db_save example_store (Some 1) ?p = Inr (1, ?st')"
    by (simp add: Product_db_save_def save_row_def update_row_def keys_def example_defs)
  with fk have sv: "Product_save example_store (Some 1) ?p = (Inr 1, ?st')"
    by (simp add: Product_save_def atomic_def)
  have "lookup (sale_items example_store) 1 = Some example_item"
    by (simp add: lookup_def example_store_def)
  with product_update_keeps_sale_items [of example_store "Some 1" ?p]
  have "lookup (sale_items (snd (Product_save example_store (Some 1) ?p))) 1 = Some example_item"
    by simp
  moreover have "lookup (products ?st') 1 = Some ?p" by (simp add: lookup_def)
  moreover have "unit_price example_item = 18" by (simp add: example_item_def)
  ultimately show ?thesis using sv by simp
qed

lemma fk_ok_Sale_delete:
  assumes "fk_ok st"
  shows "fk_ok (st\<lparr>sale_items := delete_rows (\<lambda>_ i. sale i = j) (sale_items st),
                   sales := delete_rows (\<lambda>k' _. k' = j) (sales st)\<rparr>)"
  using assms
  by (fastforce simp: fk_ok_def delete_rows_def keys_def list_all_iff)

text \<open>
  Claim C8. Deleting a Product that a StockReceipt or a SaleItem refers to fails with
  \<^verbatim>\<open>ProtectedError\<close> and leaves the store unchanged. Deleting a Sale succeeds, removes
  that Sale and exactly the SaleItems that refer to it, and leaves the Products, the
  StockReceipts and the users as they were.
\<close>

theorem delete_protect_and_cascade:
  "(list_ex (\<lambda>(_, r). receipt_product r = k) (rows (stock_receipts st))
      \<or> list_ex (\<lambda>(_, i). product i = k) (rows (sale_items st)) \<longrightarrow>
      Product_delete st k = (Inl ProtectedError, st))
   \<and> (fk_ok st \<longrightarrow>
        fst (Sale_delete st j) = Inr ()
        \<and> rows (sales (snd (Sale_delete st j))) = filter (\<lambda>(k', _). k' \<noteq> j) (rows (sales st))
        \<and> rows (sale_items (snd (Sale_delete st j)))
            = filter (\<lambda>(_, i). sale i \<noteq> j) (rows (sale_items st))
        \<and> products (snd (Sale_delete st j)) = products st
        \<and> stock_receipts (snd (Sale_delete st j)) = stock_receipts st
        \<and> users (snd (Sale_delete st j)) = users st)"
proof (intro conjI impI)
  assume "list_ex (\<lambda>(_, r). receipt_product r = k) (rows (stock_receipts st))
      \<or> list_ex (\<lambda>(_, i). product i = k) (rows (sale_items st))"
  then show "Product_delete st k = (Inl ProtectedError, st)"
    by (auto simp: Product_delete_def)
next
  assume "fk_ok st"
  then have eq: "Sale_delete st j =
      (Inr (), st\<lparr>sale_items := delete_rows (\<lambda>_ i. sale i = j) (sale_items st),
                   sales := delete_rows (\<lambda>k' _. k' = j) (sales st)\<rparr>)"
    by (simp add: Sale_delete_def atomic_def fk_ok_Sale_delete)
  show "fst (Sale_delete st j) = Inr ()" by (simp add: eq)
  show "rows (sales (snd (Sale_delete st j))) = filter (\<lambda>(k', _). k' \<noteq> j) (rows (sales st))"
    by (simp add: eq delete_rows_def)
  show "rows (sale_items (snd (Sale_delete st j)))
            = filter (\<lambda>(_, i). sale i \<noteq> j) (rows (sale_items st))"
    by (simp add: eq delete_rows_def)
  show "products (snd (Sale_delete st j)) = products st" by (simp add: eq)
  show "stock_receipts (snd (Sale_delete st j)) = stock_receipts st" by (simp add: eq)
  show "users (snd (Sale_delete st j)) = users st" by (simp add: eq)
qed

theorem delete_protect_and_cascade_witness:
  "list_ex (\<lambda>(_, r). receipt_product r = 1) (rows (stock_receipts example_store))
   \<and> Product_delete example_store 1 = (Inl ProtectedError, example_store)
   \<and> fk_ok example_store
   \<and> Sale_delete example_store 1
       = (Inr (), example_store\<lparr>sale_items := \<lparr>rows = [], seq = 1\<rparr>,
                                 sales := \<lparr>rows = [], seq = 1\<rparr>\<rparr>)"
proof -
  have ref: "list_ex (\<lambda>(_, r). receipt_product r = 1) (rows (stock_receipts example_store))"
    by (simp add: example_defs)
  with delete_protect_and_cascade [of 1 example_store 1]
  have a: "Product_delete example_store 1 = (Inl ProtectedError, example_store)" by blast
  from delete_protect_and_cascade [of 1 example_store 1] example_store_fk_ok
  have b: "fst (Sale_delete example_store 1) = Inr ()"
    and c: "rows (sales (snd (Sale_delete example_store 1))) = []"
    and d: "rows (sale_items (snd (Sale_delete example_store 1))) = []"
    by (simp_all add: example_defs)
  have "snd (Sale_delete example_store 1)
      = example_store\<lparr>sale_items := \<lparr>rows = [], seq = 1\<rparr>, sales := \<lparr>rows = [], seq = 1\<rparr>\<rparr>"
    using example_store_fk_ok
    by (simp add: Sale_delete_def atomic_def delete_rows_def fk_ok_def keys_def example_defs)
  with b have "Sale_delete example_store 1
      = (Inr (), example_store\<lparr>sale_items := \<lparr>rows = [], seq = 1\<rparr>,
                               sales := \<lparr>rows = [], seq = 1\<rparr>\<rparr>)"
    by (simp add: prod_eq_iff)
  with ref a example_store_fk_ok show ?thesis by simp
qed

subsection \<open>Stock adjustments and receipts\<close>

lemma and_then_Inr:
  "and_then m f = Inr y \<longleftrightarrow> (\<exists>v. m = Inr v \<and> f v = Inr y)"
  by (cases m) (simp_all add: and_then_def)

lemma lookup_in_keys: "lookup t k = Some x \<Longrightarrow> k \<in> fst ` set (rows t)"
  by (auto simp: lookup_def dest: map_of_SomeD intro: rev_image_eqI)

lemma lookup_update_row:
  "lookup t k = Some y \<Longrightarrow> lookup (update_row t k x) j = (if j = k then Some x else lookup t j)"
  by (frule lookup_in_keys) (simp add: lookup_def update_row_def map_of_update_rows)

lemma adjustStock_Inr:
  assumes "adjustStock st pid d sd = Inr st'"
  obtains p where "lookup (products st) pid = Some p" "0 \<le> stock_quantity p + d"
    and "st' = st\<lparr>products := update_row (products st) pid
                               (p\<lparr>stock_quantity := stock_quantity p + d\<rparr>)\<rparr>"
  using assms by (auto simp: adjustStock_def split: option.splits if_splits)

lemma stock_adjustStock:
  assumes "adjustStock st pid d sd = Inr st'"
  shows "stock st' j = map_option (\<lambda>x. x + (if j = pid then d else 0)) (stock st j)"
proof -
  from assms obtain p where p: "lookup (products st) pid = Some p"
    and st': "st' = st\<lparr>products := update_row (products st) pid
                               (p\<lparr>stock_quantity := stock_quantity p + d\<rparr>)\<rparr>"
    by (rule adjustStock_Inr)
  show ?thesis
    using p by (cases "j = pid") (simp_all add: stock_def st' lookup_update_row [OF p] option.map_ident)
qed

lemma stocks_nonneg_adjustStock:
  assumes "adjustStock st pid d sd = Inr st'" "stocks_nonneg st"
  shows "stocks_nonneg st'"
proof -
  from assms(1) obtain p where nn: "0 \<le> stock_quantity p + d"
    and st': "st' = st\<lparr>products := update_row (products st) pid
                               (p\<lparr>stock_quantity := stock_quantity p + d\<rparr>)\<rparr>"
    by (rule adjustStock_Inr)
  with assms(2) show ?thesis
    by (auto simp: stocks_nonneg_def st' update_row_def list_all_iff)
qed

lemma adjustStock_frame:
  assumes "adjustStock st pid d sd = Inr st'"
  shows "users st' = users st" "stock_receipts st' = stock_receipts st"
    "sales st' = sales st" "sale_items st' = sale_items st"
    "keys (products st') = keys (products st)" "seq (products st') = seq (products st)"
  using assms by (auto elim!: adjustStock_Inr simp: keys_def update_row_def)

lemma StockReceipt_db_save_None:
  "StockReceipt_db_save st None r = Inr (k, s1) \<longleftrightarrow>
     0 \<le> receipt_quantity r \<and> k = Suc (seq (stock_receipts st))
     \<and> s1 = st\<lparr>stock_receipts :=
                   \<lparr>rows = rows (stock_receipts st) @ [(k, r)], seq = k\<rparr>\<rparr>"
  by (auto simp: StockReceipt_db_save_def save_row_def insert_row_def Let_def)

lemma recordReceipt_Inr:
  assumes "recordReceipt st pid q c rcv sn notes = (Inr (k, r), st')"
  obtains s1 where "0 < q" "0 < c"
    and "r = \<lparr>receipt_product = pid, receipt_quantity = q, cost_price_at_receipt = c,
               supplier_name = sn, supplier_notes = notes, received_by = rcv\<rparr>"
    and "k = Suc (seq (stock_receipts st))"
    and "s1 = st\<lparr>stock_receipts := \<lparr>rows = rows (stock_receipts st) @ [(k, r)], seq = k\<rparr>\<rparr>"
    and "adjustStock s1 pid q False = Inr st'" and "fk_ok st'"
proof -
  let ?r = "\<lparr>receipt_product = pid, receipt_quantity = q, cost_price_at_receipt = c,
               supplier_name = sn, supplier_notes = notes, received_by = rcv\<rparr>"
  from assms have pos: "0 < q" "0 < c"
    by (auto simp: recordReceipt_def split: if_splits)
  with assms have "atomic (\<lambda>s.
             and_then (StockReceipt_db_save s None ?r) (\<lambda>(k, s1).
             and_then (adjustStock s1 pid q False) (\<lambda>s2.
             Inr ((k, ?r), s2)))) st = (Inr (k, r), st')"
    by (simp add: recordReceipt_def Let_def)
  then have body: "and_then (StockReceipt_db_save st None ?r) (\<lambda>(k, s1).
             and_then (adjustStock s1 pid q False) (\<lambda>s2.
             Inr ((k, ?r), s2))) = Inr ((k, r), st')" and fk: "fk_ok st'"
    by (simp_all add: atomic_Inr)
  from body obtain k1 s1 where sv: "StockReceipt_db_save st None ?r = Inr (k1, s1)"
    and adj: "and_then (adjustStock s1 pid q False) (\<lambda>s2. Inr ((k1, ?r), s2)) = Inr ((k, r), st')"
    by (auto simp: and_then_Inr)
  from adj have "k1 = k" "r = ?r" "adjustStock s1 pid q False = Inr st'"
    by (auto simp: and_then_Inr)
  with sv pos fk show ?thesis
    by (intro that [of s1]) (auto simp: StockReceipt_db_save_None)
qed

lemma recordReceipt_Inl: "recordReceipt st pid q c rcv sn notes = (Inl e, st') \<Longrightarrow> st' = st"
  by (auto simp: recordReceipt_def Let_def split: if_splits dest: atomic_Inl_store)

lemma recordReceipt_NotFound:
  assumes "0 < q" "0 < c" "lookup (products st) pid = None"
  shows "recordReceipt st pid q c rcv sn notes = (Inl NotFound, st)"
  using assms
  by (simp add: recordReceipt_def Let_def atomic_def and_then_def StockReceipt_db_save_def
        save_row_def insert_row_def adjustStock_def)

subsection \<open>Creating a sale\<close>

lemma line_total_Cons:
  "line_total j (l # ls) = (if productId l = j then line_quantity l else 0) + line_total j ls"
  by (simp add: line_total_def)

lemma stock_decrement_all:
  "decrement_all st ls = Inr st' \<Longrightarrow>
     stock st' j = map_option (\<lambda>x. x - line_total j ls) (stock st j)"
proof (induction ls arbitrary: st)
  case Nil
  then show ?case by (simp add: line_total_def option.map_ident)
next
  case (Cons l ls)
  from Cons.prems obtain s1 where a: "adjustStock st (productId l) (- line_quantity l) True = Inr s1"
    and d: "decrement_all s1 ls = Inr st'"
    by (auto split: sum.splits)
  from Cons.IH [OF d] stock_adjustStock [OF a, of j]
  show ?case
    by (cases "stock st j") (auto simp: line_total_Cons)
qed

lemma stocks_nonneg_decrement_all:
  "decrement_all st ls = Inr st' \<Longrightarrow> stocks_nonneg st \<Longrightarrow> stocks_nonneg st'"
proof (induction ls arbitrary: st)
  case Nil
  then show ?case by simp
next
  case (Cons l ls)
  from Cons.prems obtain s1 where a: "adjustStock st (productId l) (- line_quantity l) True = Inr s1"
    and d: "decrement_all s1 ls = Inr st'"
    by (auto split: sum.splits)
  from a Cons.prems(2) have "stocks_nonneg s1" by (rule stocks_nonneg_adjustStock)
  with d show ?case by (rule Cons.IH)
qed

lemma decrement_all_frame:
  "decrement_all st ls = Inr st' \<Longrightarrow>
     users st' = users st \<and> stock_receipts st' = stock_receipts st
     \<and> sales st' = sales st \<and> sale_items st' = sale_items st"
proof (induction ls arbitrary: st)
  case Nil
  then show ?case by simp
next
  case (Cons l ls)
  from Cons.prems obtain s1 where a: "adjustStock st (productId l) (- line_quantity l) True = Inr s1"
    and d: "decrement_all s1 ls = Inr st'"
    by (auto split: sum.splits)
  from Cons.IH [OF d] adjustStock_frame [OF a] show ?case by simp
qed

lemma Sale_db_save_None:
  "Sale_db_save st None s = Inr (k, s2) \<longleftrightarrow>
     \<not> list_ex (\<lambda>(k', s'). order_id s' = order_id s) (rows (sales st))
     \<and> k = Suc (seq (sales st))
     \<and> s2 = st\<lparr>sales := \<lparr>rows = rows (sales st) @ [(k, s)], seq = k\<rparr>\<rparr>"
  by (auto simp: Sale_db_save_def save_row_def insert_row_def Let_def)

lemma SaleItem_db_save_None:
  "SaleItem_db_save st None i = Inr (k, s2) \<longleftrightarrow>
     0 \<le> quantity i \<and> subtotal i \<noteq> None \<and> profit i \<noteq> None
     \<and> k = Suc (seq (sale_items st))
     \<and> s2 = st\<lparr>sale_items := \<lparr>rows = rows (sale_items st) @ [(k, i)], seq = k\<rparr>\<rparr>"
  by (auto simp: SaleItem_db_save_def save_row_def insert_row_def Let_def)

lemma insert_items_Inr:
  "insert_items st items = Inr st' \<Longrightarrow>
     users st' = users st \<and> products st' = products st
     \<and> stock_receipts st' = stock_receipts st \<and> sales st' = sales st
     \<and> (\<exists>ks. length ks = length items
            \<and> rows (sale_items st') = rows (sale_items st) @ zip ks (map SaleItem_pre_save items))"
proof (induction items arbitrary: st)
  case Nil
  then show ?case by simp
next
  case (Cons i items)
  from Cons.prems obtain k s1 where sv: "SaleItem_db_save st None (SaleItem_pre_save i) = Inr (k, s1)"
    and rest: "insert_items s1 items = Inr st'"
    by (auto split: sum.splits)
  from sv have s1: "s1 = st\<lparr>sale_items :=
      \<lparr>rows = rows (sale_items st) @ [(k, SaleItem_pre_save i)], seq = k\<rparr>\<rparr>"
    by (simp add: SaleItem_db_save_None)
  from Cons.IH [OF rest] obtain ks where ks: "length ks = length items"
    and rws: "rows (sale_items st') = rows (sale_items s1) @ zip ks (map SaleItem_pre_save items)"
    and fr: "users st' = users s1" "products st' = products s1"
      "stock_receipts st' = stock_receipts s1" "sales st' = sales s1"
    by auto
  have "length (k # ks) = length (i # items)" using ks by simp
  moreover have "rows (sale_items st') =
      rows (sale_items st) @ zip (k # ks) (map SaleItem_pre_save (i # items))"
    using rws by (simp add: s1)
  ultimately have "\<exists>ks. length ks = length (i # items)
            \<and> rows (sale_items st') = rows (sale_items st) @ zip ks (map SaleItem_pre_save (i # items))"
    by blast
  with fr show ?case by (simp add: s1)
qed

lemma createSale_Inr:
  assumes "createSale st rnds cid pm tp ls notes = (Inr (k, hdr), st')"
  obtains lps oid s1 s2 where "check_lines st ls = Inr lps" "fresh_order_id st rnds = Inr oid"
    and "decrement_all st ls = Inr s1"
    and "hdr = sale_header oid cid pm tp lps notes"
    and "Sale_db_save s1 None hdr = Inr (k, s2)"
    and "insert_items s2 (map (snapshot k) lps) = Inr st'"
    and "fk_ok st'"
proof -
  from assms have "atomic (\<lambda>s.
        and_then (if cid \<in> set (keys (users s)) then Inr () else Inl NotFound) (\<lambda>_.
        and_then (check_lines s ls) (\<lambda>lps.
        and_then (fresh_order_id s rnds) (\<lambda>oid.
        and_then (decrement_all s ls) (\<lambda>s1.
        and_then (Sale_db_save s1 None (sale_header oid cid pm tp lps notes))
          (\<lambda>(k, s2).
        and_then (insert_items s2 (map (snapshot k) lps)) (\<lambda>s3.
        Inr ((k, sale_header oid cid pm tp lps notes), s3)))))))) st = (Inr (k, hdr), st')"
    by (auto simp: createSale_def split: if_splits)
  then show ?thesis
    by (auto simp: atomic_Inr and_then_Inr intro: that)
qed

lemma createSale_Inl: "createSale st rnds cid pm tp ls notes = (Inl e, st') \<Longrightarrow> st' = st"
  by (auto simp: createSale_def split: if_splits dest: atomic_Inl_store)

lemma stock_createSale:
  assumes "createSale st rnds cid pm tp ls notes = (Inr x, st')"
  shows "stock st' j = map_option (\<lambda>q. q - line_total j ls) (stock st j)"
    and "stocks_nonneg st \<Longrightarrow> stocks_nonneg st'"
proof -
  obtain k hdr where x: "x = (k, hdr)" by (cases x)
  from assms [unfolded x] obtain lps s1 s2 where d: "decrement_all st ls = Inr s1"
    and sv: "Sale_db_save s1 None hdr = Inr (k, s2)"
    and ins: "insert_items s2 (map (snapshot k) lps) = Inr st'"
    by (rule createSale_Inr)
  from sv have "products s2 = products s1" by (auto simp: Sale_db_save_None)
  with insert_items_Inr [OF ins] have pr: "products st' = products s1" by simp
  with stock_decrement_all [OF d, of j]
  show "stock st' j = map_option (\<lambda>q. q - line_total j ls) (stock st j)"
    by (simp add: stock_def)
  assume "stocks_nonneg st"
  with d have "stocks_nonneg s1" by (rule stocks_nonneg_decrement_all)
  with pr show "stocks_nonneg st'" by (simp add: stocks_nonneg_def)
qed

lemma stock_recordReceipt:
  assumes "recordReceipt st pid q c rcv sn notes = (Inr x, st')"
  shows "stock st' j = map_option (\<lambda>s. s + (if pid = j then q else 0)) (stock st j)"
    and "stocks_nonneg st \<Longrightarrow> stocks_nonneg st'"
proof -
  obtain k r where x: "x = (k, r)" by (cases x)
  from assms [unfolded x] obtain s1 where
    s1: "s1 = st\<lparr>stock_receipts := \<lparr>rows = rows (stock_receipts st) @ [(k, r)], seq = k\<rparr>\<rparr>"
    and adj: "adjustStock s1 pid q False = Inr st'"
    by (rule recordReceipt_Inr)
  from stock_adjustStock [OF adj, of j]
  show "stock st' j = map_option (\<lambda>s. s + (if pid = j then q else 0)) (stock st j)"
    by (simp add: stock_def s1 eq_commute [of j pid])
  assume "stocks_nonneg st"
  then have "stocks_nonneg s1" by (simp add: stocks_nonneg_def s1)
  with adj show "stocks_nonneg st'" by (rule stocks_nonneg_adjustStock)
qed

subsection \<open>Sequences of committed operations\<close>

lemma stock_apply_operation:
  assumes "apply_operation st x = Some st'"
  shows "stock st' j = map_option (\<lambda>q. q + received j x - sold j x) (stock st j)"
    and "stocks_nonneg st \<Longrightarrow> stocks_nonneg st'"
proof -
  show "stock st' j = map_option (\<lambda>q. q + received j x - sold j x) (stock st j)"
  proof (cases x)
    case (Receive pid q c rcv sn nt)
    with assms obtain y where "recordReceipt st pid q c rcv sn nt = (Inr y, st')"
      by (auto split: prod.splits sum.splits)
    from stock_recordReceipt(1) [OF this, of j] Receive show ?thesis by simp
  next
    case (Sell rnds cid pm tp ls nt)
    with assms obtain y where "createSale st rnds cid pm tp ls nt = (Inr y, st')"
      by (auto split: prod.splits sum.splits)
    from stock_createSale(1) [OF this, of j] Sell show ?thesis by simp
  qed
  assume nn: "stocks_nonneg st"
  show "stocks_nonneg st'"
  proof (cases x)
    case (Receive pid q c rcv sn nt)
    with assms obtain y where "recordReceipt st pid q c rcv sn nt = (Inr y, st')"
      by (auto split: prod.splits sum.splits)
    from stock_recordReceipt(2) [OF this nn] show ?thesis .
  next
    case (Sell rnds cid pm tp ls nt)
    with assms obtain y where "createSale st rnds cid pm tp ls nt = (Inr y, st')"
      by (auto split: prod.splits sum.splits)
    from stock_createSale(2) [OF this nn] show ?thesis .
  qed
qed

lemma stock_committed:
  "committed st ops = Some st' \<Longrightarrow>
     stock st' j = map_option (\<lambda>q. q + sum_list (map (received j) ops)
                                       - sum_list (map (sold j) ops)) (stock st j)"
proof (induction ops arbitrary: st)
  case Nil
  then show ?case by (simp add: option.map_ident)
next
  case (Cons x ops)
  from Cons.prems obtain s1 where a: "apply_operation st x = Some s1"
    and c: "committed s1 ops = Some st'"
    by (auto split: option.splits)
  from Cons.IH [OF c] stock_apply_operation(1) [OF a, of j]
  show ?case by (cases "stock st j") (auto simp: algebra_simps)
qed

lemma stocks_nonneg_committed:
  "committed st ops = Some st' \<Longrightarrow> stocks_nonneg st \<Longrightarrow> stocks_nonneg st'"
proof (induction ops arbitrary: st)
  case Nil
  then show ?case by simp
next
  case (Cons x ops)
  from Cons.prems obtain s1 where a: "apply_operation st x = Some s1"
    and c: "committed s1 ops = Some st'"
    by (auto split: option.splits)
  from stock_apply_operation(2) [OF a Cons.prems(2)] c show ?case by (rule Cons.IH [rotated])
qed

lemma stocks_nonneg_stock:
  "stocks_nonneg st \<Longrightarrow> stock st j = Some q \<Longrightarrow> 0 \<le> q"
  by (auto simp: stocks_nonneg_def stock_def lookup_def list_all_iff dest!: map_of_SomeD)

lemma stocks_nonneg_Product_save:
  assumes nn: "stocks_nonneg st" and sv: "Product_save st pk p = (Inr k, st')"
  shows "stocks_nonneg st'"
proof -
  from sv have body: "Product_db_save st pk p = Inr (k, st')"
    by (simp add: Product_save_def atomic_Inr)
  then have p: "0 \<le> stock_quantity p"
    by (auto simp: Product_db_save_def split: if_splits)
  from body obtain t where t: "save_row (products st) pk p = (k, t)" and st': "st' = st\<lparr>products := t\<rparr>"
    by (auto simp: Product_db_save_def Let_def split: if_splits prod.splits)
  from t have "list_all (\<lambda>(k, p). 0 \<le> stock_quantity p) (rows t)"
  proof (cases rule: save_row_cases)
    case fresh
    with nn p show ?thesis by (simp add: stocks_nonneg_def)
  next
    case update
    with nn p show ?thesis by (auto simp: stocks_nonneg_def list_all_iff)
  next
    case given
    with nn p show ?thesis by (simp add: stocks_nonneg_def)
  qed
  then show ?thesis by (simp add: stocks_nonneg_def st')
qed

subsection \<open>The totals of every reachable store\<close>

lemma SaleItem_pre_save_consistent:
  assumes s: "subtotal i = Some (unit_price i * of_int (quantity i))"
    and p: "profit i = Some ((unit_price i - unit_cost i) * of_int (quantity i))"
  shows "SaleItem_pre_save i = i"
proof -
  have a: "i\<lparr>subtotal := Some (unit_price i * of_int (quantity i))\<rparr> = i"
    using s by (metis SaleItem.surjective SaleItem.update_convs(6))
  have b: "i\<lparr>profit := Some ((unit_price i - unit_cost i) * of_int (quantity i))\<rparr> = i"
    using p by (metis SaleItem.surjective SaleItem.update_convs(7))
  show ?thesis
    unfolding SaleItem_pre_save_def Let_def a
    by (simp add: b)
qed

lemma snapshot_fields:
  "sale (snapshot k (l, p)) = k"
  "unit_price (snapshot k (l, p)) = selling_price p"
  "unit_cost (snapshot k (l, p)) = cost_price p"
  "quantity (snapshot k (l, p)) = line_quantity l"
  "subtotal (snapshot k (l, p)) = Some (selling_price p * of_int (line_quantity l))"
  "profit (snapshot k (l, p)) = Some ((selling_price p - cost_price p) * of_int (line_quantity l))"
  by (simp_all add: snapshot_def line_subtotal_def line_profit_def)

lemma SaleItem_pre_save_snapshot: "SaleItem_pre_save (snapshot k lp) = snapshot k lp"
proof -
  obtain l p where lp: "lp = (l, p)" by (cases lp)
  show ?thesis
    unfolding lp by (rule SaleItem_pre_save_consistent) (simp_all add: snapshot_fields)
qed

lemma SaleItem_pre_save_comp_snapshot: "SaleItem_pre_save \<circ> snapshot k = snapshot k"
  by (simp add: fun_eq_iff SaleItem_pre_save_snapshot)

lemma snapshot_sale: "sale (snapshot k lp) = k"
  by (cases lp) (simp add: snapshot_fields)

lemma snapshot_values:
  "field_value (subtotal (snapshot k lp)) = line_subtotal lp"
  "field_value (profit (snapshot k lp)) = line_profit lp"
  by (simp_all add: snapshot_def field_value_def split: prod.splits)

lemma totals_ok_cong:
  assumes "sales st' = sales st" "sale_items st' = sale_items st"
  shows "totals_ok st' = totals_ok st"
  unfolding totals_ok_def items_of_def assms ..

lemma store_inv_frame:
  assumes "store_inv st" "sales st' = sales st" "sale_items st' = sale_items st" "fk_ok st'"
  shows "store_inv st'"
  using assms totals_ok_cong [of st' st] by (simp only: store_inv_def)

lemma new_items_sale:
  "x \<in> set (zip ks (map (snapshot k) lps)) \<Longrightarrow> sale (snd x) = k"
  by (cases x) (auto dest!: set_zip_rightD simp: snapshot_sale)

lemma filter_new_items:
  "filter (\<lambda>(_, i). sale i = j) (zip ks (map (snapshot k) lps)) =
     (if j = k then zip ks (map (snapshot k) lps) else [])"
proof (cases "j = k")
  case True
  have "filter (\<lambda>(_, i). sale i = k) (zip ks (map (snapshot k) lps)) = zip ks (map (snapshot k) lps)"
    by (rule filter_True) (auto dest: new_items_sale)
  with True show ?thesis by simp
next
  case False
  have "filter (\<lambda>(_, i). sale i = j) (zip ks (map (snapshot k) lps)) = []"
    using False by (auto simp: filter_empty_conv dest: new_items_sale)
  with False show ?thesis by simp
qed

lemma sum_new_items:
  assumes "length ks = length lps"
  shows "sum_list (map (\<lambda>(_, i). f i) (zip ks (map (snapshot k) lps)))
       = sum_list (map (\<lambda>lp. f (snapshot k lp)) lps)"
proof -
  have "map (\<lambda>(_, i). f i) (zip ks (map (snapshot k) lps))
      = map f (map snd (zip ks (map (snapshot k) lps)))"
    by (simp add: case_prod_unfold)
  also have "map snd (zip ks (map (snapshot k) lps)) = map (snapshot k) lps"
    using assms by simp
  finally show ?thesis by (simp add: comp_def)
qed

lemma store_inv_createSale:
  assumes inv: "store_inv st"
    and cs: "createSale st rnds cid pm tp ls nt = (Inr y, st')"
  shows "store_inv st'"
proof -
  obtain k hdr where y: "y = (k, hdr)" by (cases y)
  from cs [unfolded y] obtain lps oid s1 s2 where d: "decrement_all st ls = Inr s1"
    and hdr: "hdr = sale_header oid cid pm tp lps nt"
    and sv: "Sale_db_save s1 None hdr = Inr (k, s2)"
    and ins: "insert_items s2 (map (snapshot k) lps) = Inr st'"
    and fk': "fk_ok st'"
    by (rule createSale_Inr)
  from inv have tot: "totals_ok st" and tab: "table_ok (sales st)" and fk: "fk_ok st"
    by (simp_all add: store_inv_def)
  from decrement_all_frame [OF d] have s1: "sales s1 = sales st" "sale_items s1 = sale_items st"
    by simp_all
  from sv have k: "k = Suc (seq (sales st))"
    and s2: "s2 = s1\<lparr>sales := \<lparr>rows = rows (sales st) @ [(k, hdr)], seq = k\<rparr>\<rparr>"
    by (simp_all add: Sale_db_save_None s1)
  from insert_items_Inr [OF ins] obtain ks where ks: "length ks = length lps"
    and items': "rows (sale_items st') = rows (sale_items st) @ zip ks (map (snapshot k) lps)"
    and sales': "sales st' = \<lparr>rows = rows (sales st) @ [(k, hdr)], seq = k\<rparr>"
    by (auto simp: s2 s1 SaleItem_pre_save_comp_snapshot)
  from tab have old_keys: "\<forall>(k', s) \<in> set (rows (sales st)). k' < k"
    by (auto simp: table_ok_iff k)
  from tab have tab': "table_ok (sales st')"
    by (auto simp: table_ok_iff sales' k)
  from fk old_keys have no_old: "filter (\<lambda>(_, i). sale i = k) (rows (sale_items st)) = []"
    by (fastforce simp: filter_empty_conv fk_ok_def list_all_iff keys_def)
  have new: "items_of st' k = zip ks (map (snapshot k) lps)"
    by (simp add: items_of_def items' no_old filter_new_items)
  have old: "items_of st' k' = items_of st k'" if "k' \<noteq> k" for k'
    using that by (simp add: items_of_def items' filter_new_items)
  have "sale_subtotal hdr = sum_list (map (\<lambda>(_, i). field_value (subtotal i)) (items_of st' k))"
    unfolding new sum_new_items [OF ks]
    by (simp add: hdr sale_header_def Let_def snapshot_values)
  moreover
  have "sale_profit hdr = sum_list (map (\<lambda>(_, i). field_value (profit i)) (items_of st' k))"
    unfolding new sum_new_items [OF ks]
    by (simp add: hdr sale_header_def Let_def snapshot_values)
  moreover have "total hdr = sale_subtotal hdr + tax hdr"
    by (simp add: hdr sale_header_def Let_def)
  moreover
  have "list_all (\<lambda>(k', s).
         sale_subtotal s = sum_list (map (\<lambda>(_, i). field_value (subtotal i)) (items_of st' k'))
         \<and> sale_profit s = sum_list (map (\<lambda>(_, i). field_value (profit i)) (items_of st' k'))
         \<and> total s = sale_subtotal s + tax s) (rows (sales st))"
    unfolding list_all_iff
  proof (intro ballI)
    fix x assume x: "x \<in> set (rows (sales st))"
    obtain k' s where ks: "x = (k', s)" by (cases x)
    from x old_keys have "k' \<noteq> k" by (auto simp: ks)
    then have "items_of st' k' = items_of st k'" by (rule old)
    with tot x show "case x of (k', s) \<Rightarrow>
         sale_subtotal s = sum_list (map (\<lambda>(_, i). field_value (subtotal i)) (items_of st' k'))
         \<and> sale_profit s = sum_list (map (\<lambda>(_, i). field_value (profit i)) (items_of st' k'))
         \<and> total s = sale_subtotal s + tax s"
      by (auto simp: totals_ok_def list_all_iff ks)
  qed
  ultimately have "totals_ok st'"
    by (simp add: totals_ok_def sales')
  with tab' fk' show ?thesis by (simp add: store_inv_def)
qed

lemma store_inv_empty: "store_inv empty_store"
  by (simp add: store_inv_def totals_ok_def table_ok_def fk_ok_def keys_def empty_store_def
        empty_table_def)

lemma keys_insert_row:
  "set (keys (snd (insert_row t u))) = insert (Suc (seq t)) (set (keys t))"
  by (simp add: insert_row_def keys_def Let_def)

lemma store_inv_add_user:
  assumes "store_inv st"
  shows "store_inv (st\<lparr>users := snd (insert_row (users st) u)\<rparr>)"
proof -
  let ?st' = "st\<lparr>users := snd (insert_row (users st) u)\<rparr>"
  from assms have "fk_ok st" by (simp add: store_inv_def)
  then have fk: "fk_ok ?st'"
    unfolding fk_ok_def list_all_iff by (simp add: keys_insert_row case_prod_unfold)
  have "sales ?st' = sales st" "sale_items ?st' = sale_items st" by simp_all
  with assms show ?thesis using fk by (rule store_inv_frame)
qed

lemma store_inv_Product_save:
  assumes "store_inv st" "Product_save st pk p = (Inr k, st')"
  shows "store_inv st'"
proof -
  from assms(2) have "Product_db_save st pk p = Inr (k, st')" and fk: "fk_ok st'"
    by (simp_all add: Product_save_def atomic_Inr)
  then have "sales st' = sales st" "sale_items st' = sale_items st"
    by (auto simp: Product_db_save_def Let_def split: if_splits prod.splits)
  with assms(1) show ?thesis using fk by (rule store_inv_frame)
qed

lemma store_inv_recordReceipt:
  assumes "store_inv st" "recordReceipt st pid q c rcv sn nt = (Inr x, st')"
  shows "store_inv st'"
proof -
  obtain k r where x: "x = (k, r)" by (cases x)
  from assms(2) [unfolded x] obtain s1 where
    s1: "s1 = st\<lparr>stock_receipts := \<lparr>rows = rows (stock_receipts st) @ [(k, r)], seq = k\<rparr>\<rparr>"
    and adj: "adjustStock s1 pid q False = Inr st'" and fk: "fk_ok st'"
    by (rule recordReceipt_Inr)
  from adjustStock_frame [OF adj] have "sales st' = sales st" "sale_items st' = sale_items st"
    by (simp_all add: s1)
  with assms(1) show ?thesis using fk by (rule store_inv_frame)
qed

lemma store_inv_Product_delete:
  assumes "store_inv st" "Product_delete st k = (Inr (), st')"
  shows "store_inv st'"
proof -
  from assms(2) have "sales st' = sales st" "sale_items st' = sale_items st" "fk_ok st'"
    by (auto simp: Product_delete_def atomic_Inr split: if_splits)
  with assms(1) show ?thesis by (rule store_inv_frame)
qed

lemma store_inv_Sale_delete:
  assumes inv: "store_inv st" and del: "Sale_delete st k = (Inr (), st')"
  shows "store_inv st'"
proof -
  from del have st': "st' = st\<lparr>sale_items := delete_rows (\<lambda>_ i. sale i = k) (sale_items st),
                               sales := delete_rows (\<lambda>k' _. k' = k) (sales st)\<rparr>"
    and fk: "fk_ok st'"
    by (auto simp: Sale_delete_def atomic_Inr)
  from inv have tot: "totals_ok st" and tab: "table_ok (sales st)"
    by (simp_all add: store_inv_def)
  from tab have tab': "table_ok (sales st')"
    by (auto simp: table_ok_iff st' delete_rows_def distinct_map_filter)
  have items: "items_of st' k' = items_of st k'" if "k' \<noteq> k" for k'
  proof -
    have "filter (\<lambda>(_, i). sale i = k') (filter (\<lambda>(_, i). sale i \<noteq> k) (rows (sale_items st)))
        = filter (\<lambda>x. (case x of (_, i) \<Rightarrow> sale i \<noteq> k) \<and> (case x of (_, i) \<Rightarrow> sale i = k'))
            (rows (sale_items st))"
      by (simp only: filter_filter)
    also have "\<dots> = filter (\<lambda>(_, i). sale i = k') (rows (sale_items st))"
      using that by (intro filter_cong refl) auto
    finally have "filter (\<lambda>(_, i). sale i = k') (filter (\<lambda>(_, i). sale i \<noteq> k) (rows (sale_items st)))
        = filter (\<lambda>(_, i). sale i = k') (rows (sale_items st))" .
    then show ?thesis by (simp add: items_of_def st' delete_rows_def)
  qed
  have "totals_ok st'"
    unfolding totals_ok_def list_all_iff
  proof (intro ballI)
    fix x assume x: "x \<in> set (rows (sales st'))"
    obtain k' s where ks: "x = (k', s)" by (cases x)
    from x have "k' \<noteq> k" and old: "(k', s) \<in> set (rows (sales st))"
      by (auto simp: ks st' delete_rows_def)
    from \<open>k' \<noteq> k\<close> have "items_of st' k' = items_of st k'" by (rule items)
    with tot old show "case x of (k', s) \<Rightarrow>
         sale_subtotal s = sum_list (map (\<lambda>(_, i). field_value (subtotal i)) (items_of st' k'))
         \<and> sale_profit s = sum_list (map (\<lambda>(_, i). field_value (profit i)) (items_of st' k'))
         \<and> total s = sale_subtotal s + tax s"
      by (auto simp: totals_ok_def list_all_iff ks)
  qed
  with tab' fk show ?thesis by (simp add: store_inv_def)
qed

lemma reachable_store_inv: "reachable st \<Longrightarrow> store_inv st"
proof (induction rule: reachable.induct)
  case initial
  show ?case by (rule store_inv_empty)
next
  case (add_user st u)
  then show ?case by (simp add: store_inv_add_user)
next
  case (save_product st pk p k st')
  then show ?case by (blast intro: store_inv_Product_save)
next
  case (receipt st pid q c rcv sn nt x st')
  then show ?case by (blast intro: store_inv_recordReceipt)
next
  case (sale_created st rnds cid pm tp ls nt y st')
  then show ?case by (blast intro: store_inv_createSale)
next
  case (delete_sale st k st')
  then show ?case by (blast intro: store_inv_Sale_delete)
next
  case (delete_product st k st')
  then show ?case by (blast intro: store_inv_Product_delete)
qed

subsection \<open>The example shop, step by step\<close>

lemmas example_defs2 = example_defs example_catalog_def example_received_def empty_table_def

lemma example_recordReceipt:
  "recordReceipt example_catalog 1 5 10 1 [] [] = (Inr (1, example_receipt), example_received)"
  by (simp add: recordReceipt_def Let_def atomic_def and_then_def StockReceipt_db_save_def save_row_def
        insert_row_def adjustStock_def lookup_def update_row_def fk_ok_def keys_def example_defs2)

lemma example_new_order_id:
  "new_order_id 0x0A1B2C3D0123456789ABCDEF01234567 = ''#ORD-0A1B2C3D''"
proof -
  have "take 8 (hex w) = map (\<lambda>i. hex_digit (unat (drop_bit (4 * (31 - i)) w AND 0xF))) [0..<8]"
    for w :: "128 word"
    by (simp add: hex_def take_map)
  then have "upper (take 8 (hex (0x0A1B2C3D0123456789ABCDEF01234567 :: 128 word))) = ''0A1B2C3D''"
    by (simp add: upt8 upper_def hex_digit_def upper_char_def)
  then show ?thesis by (simp add: new_order_id_def hex_uuid4_prefix)
qed

lemma example_createSale:
  "createSale example_received [0x0A1B2C3D0123456789ABCDEF01234567] 1 Cash (TaxAmount 0)
     [\<lparr>productId = 1, line_quantity = 2\<rparr>] []
   = (Inr (1, example_sale), example_store)"
  by (simp add: createSale_def Let_def atomic_def and_then_def example_new_order_id sale_header_def
        snapshot_def line_subtotal_def line_profit_def SaleItem_pre_save_def py_not_def
        Sale_db_save_def SaleItem_db_save_def save_row_def
        insert_row_def adjustStock_def lookup_def update_row_def fk_ok_def keys_def example_defs2)

lemma reachable_example_store: "reachable example_store"
proof -
  let ?u = "\<lparr>username = ''asha'', role = ''EMPLOYEE''\<rparr>"
  let ?s1 = "empty_store\<lparr>users := \<lparr>rows = [(1, ?u)], seq = 1\<rparr>\<rparr>"
  have "reachable (empty_store\<lparr>users := snd (insert_row (users empty_store) ?u)\<rparr>)"
    by (intro reachable.add_user reachable.initial)
  then have r1: "reachable ?s1"
    by (simp add: insert_row_def empty_store_def empty_table_def)
  have fk: "fk_ok example_catalog"
    by (simp add: fk_ok_def keys_def example_defs2)
  have "Product_db_save ?s1 None (example_product\<lparr>stock_quantity := 0\<rparr>) = Inr (1, example_catalog)"
    by (simp add: Product_db_save_def save_row_def insert_row_def empty_store_def example_defs2)
  with fk have "Product_save ?s1 None (example_product\<lparr>stock_quantity := 0\<rparr>) = (Inr 1, example_catalog)"
    by (simp add: Product_save_def atomic_def)
  with r1 have "reachable example_catalog" by (rule reachable.save_product)
  then have "reachable example_received"
    using example_recordReceipt by (rule reachable.receipt)
  then show ?thesis
    using example_createSale by (rule reachable.sale_created)
qed

subsection \<open>The core operations\<close>

text \<open>
  The models themselves do not couple a receipt to the stock: \<^verbatim>\<open>StockReceipt\<close> has no
  \<^verbatim>\<open>save\<close> of its own, and saving one leaves every Product as it was. The coupling is
  the work of \<^verbatim>\<open>recordReceipt\<close>.
\<close>

lemma StockReceipt_save_keeps_products:
  "products (snd (StockReceipt_save st pk r)) = products st"
  by (auto simp: StockReceipt_save_def atomic_def StockReceipt_db_save_def Let_def
           split: sum.splits if_splits prod.splits)

text \<open>
  Claim C1, for \<^verbatim>\<open>recordReceipt\<close> as the specification describes it. When it succeeds,
  the receipt is the one new row of the ledger and the stock of its Product, and of no
  other, has grown by exactly the receipt's quantity. When it fails, the store is as it
  was before: in particular, for a product that does not exist the receipt row is
  inserted, the stock adjustment fails with \<^verbatim>\<open>NotFound\<close>, and the insert is rolled back.
\<close>

theorem receipt_and_stock_inseparable:
  "(recordReceipt st pid q c rcv sn notes = (Inr (k, r), st') \<longrightarrow>
      rows (stock_receipts st') = rows (stock_receipts st) @ [(k, r)]
      \<and> receipt_product r = pid \<and> receipt_quantity r = q
      \<and> (\<exists>p. lookup (products st) pid = Some p
             \<and> lookup (products st') pid = Some (p\<lparr>stock_quantity := stock_quantity p + q\<rparr>))
      \<and> (\<forall>j. j \<noteq> pid \<longrightarrow> lookup (products st') j = lookup (products st) j))
   \<and> (recordReceipt st pid q c rcv sn notes = (Inl e, st') \<longrightarrow> st' = st)
   \<and> (0 < q \<and> 0 < c \<and> lookup (products st) pid = None \<longrightarrow>
        recordReceipt st pid q c rcv sn notes = (Inl NotFound, st))"
proof (intro conjI impI)
  assume "recordReceipt st pid q c rcv sn notes = (Inr (k, r), st')"
  then obtain s1 where r: "r = \<lparr>receipt_product = pid, receipt_quantity = q,
        cost_price_at_receipt = c, supplier_name = sn, supplier_notes = notes, received_by = rcv\<rparr>"
    and s1: "s1 = st\<lparr>stock_receipts := \<lparr>rows = rows (stock_receipts st) @ [(k, r)], seq = k\<rparr>\<rparr>"
    and adj: "adjustStock s1 pid q False = Inr st'"
    by (rule recordReceipt_Inr)
  from adj obtain p where p: "lookup (products s1) pid = Some p"
    and st': "st' = s1\<lparr>products := update_row (products s1) pid
                               (p\<lparr>stock_quantity := stock_quantity p + q\<rparr>)\<rparr>"
    by (rule adjustStock_Inr)
  show "rows (stock_receipts st') = rows (stock_receipts st) @ [(k, r)]"
    by (simp add: st' s1)
  show "receipt_product r = pid" "receipt_quantity r = q" by (simp_all add: r)
  from p have p0: "lookup (products st) pid = Some p" by (simp add: s1)
  then show "\<exists>p. lookup (products st) pid = Some p
      \<and> lookup (products st') pid = Some (p\<lparr>stock_quantity := stock_quantity p + q\<rparr>)"
    by (simp add: st' s1 lookup_update_row)
  from p0 show "\<forall>j. j \<noteq> pid \<longrightarrow> lookup (products st') j = lookup (products st) j"
    by (simp add: st' s1 lookup_update_row)
next
  assume "recordReceipt st pid q c rcv sn notes = (Inl e, st')"
  then show "st' = st" by (rule recordReceipt_Inl)
next
  assume "0 < q \<and> 0 < c \<and> lookup (products st) pid = None"
  then show "recordReceipt st pid q c rcv sn notes = (Inl NotFound, st)"
    by (simp add: recordReceipt_NotFound)
qed

theorem receipt_and_stock_inseparable_witness:
  "recordReceipt example_catalog 1 5 10 1 [] [] = (Inr (1, example_receipt), example_received)
   \<and> rows (stock_receipts example_received) = rows (stock_receipts example_catalog) @ [(1, example_receipt)]
   \<and> lookup (products example_catalog) 1 = Some (example_product\<lparr>stock_quantity := 0\<rparr>)
   \<and> lookup (products example_received) 1 = Some (example_product\<lparr>stock_quantity := 5\<rparr>)
   \<and> lookup (products example_catalog) 7 = None
   \<and> recordReceipt example_catalog 7 5 10 1 [] [] = (Inl NotFound, example_catalog)"
proof -
  note inst = receipt_and_stock_inseparable
    [of example_catalog 1 5 10 1 "[]" "[]" 1 example_receipt example_received]
  from inst example_recordReceipt
  have a: "rows (stock_receipts example_received)
      = rows (stock_receipts example_catalog) @ [(1, example_receipt)]"
    by blast
  have b: "lookup (products example_catalog) 1 = Some (example_product\<lparr>stock_quantity := 0\<rparr>)"
    by (simp add: lookup_def example_catalog_def)
  from inst example_recordReceipt
  have "\<exists>p. lookup (products example_catalog) 1 = Some p
      \<and> lookup (products example_received) 1 = Some (p\<lparr>stock_quantity := stock_quantity p + 5\<rparr>)"
    by blast
  with b have c: "lookup (products example_received) 1 = Some (example_product\<lparr>stock_quantity := 5\<rparr>)"
    by auto
  have d: "lookup (products example_catalog) 7 = None"
    by (simp add: lookup_def example_catalog_def)
  with receipt_and_stock_inseparable
    [of example_catalog 7 5 10 1 "[]" "[]" 1 example_receipt example_received]
  have e: "recordReceipt example_catalog 7 5 10 1 [] [] = (Inl NotFound, example_catalog)"
    by simp
  from example_recordReceipt a b c d e show ?thesis by simp
qed

text \<open>
  Claim C2, for \<^verbatim>\<open>recordReceipt\<close> and \<^verbatim>\<open>createSale\<close> as the specification describes
  them. After any sequence of committed receipts and sales, the stock of every Product is
  its initial stock plus the quantities received minus the quantities sold; and when no
  stock was negative at the start none is negative at the end, so in every state on the
  way, each being the end of a shorter committed sequence. The table itself refuses a
  negative \<^verbatim>\<open>stock_quantity\<close>: a \<^verbatim>\<open>Product.save\<close> that succeeds keeps all stocks
  non-negative.
\<close>

theorem stock_conservation:
  "(committed st ops = Some st' \<longrightarrow>
      stock st' pid = map_option (\<lambda>q. q + sum_list (map (received pid) ops)
                                         - sum_list (map (sold pid) ops)) (stock st pid))
   \<and> (stocks_nonneg st \<and> committed st ops = Some st' \<longrightarrow>
        stocks_nonneg st' \<and> (\<forall>q. stock st' pid = Some q \<longrightarrow> 0 \<le> q))
   \<and> (stocks_nonneg st \<and> Product_save st pk p = (Inr k, st') \<longrightarrow> stocks_nonneg st')"
  by (blast intro: stock_committed stocks_nonneg_committed stocks_nonneg_stock
        stocks_nonneg_Product_save)

theorem stock_conservation_witness:
  "committed example_catalog
     [Receive 1 5 10 1 [] [],
      Sell [0x0A1B2C3D0123456789ABCDEF01234567] 1 Cash (TaxAmount 0)
        [\<lparr>productId = 1, line_quantity = 2\<rparr>] []] = Some example_store
   \<and> stock example_catalog 1 = Some 0
   \<and> stocks_nonneg example_catalog
   \<and> stock example_store 1 = Some 3
   \<and> stocks_nonneg example_store
   \<and> fst (Product_save example_store (Some 1) (example_product\<lparr>stock_quantity := 7\<rparr>)) = Inr 1
   \<and> stocks_nonneg (snd (Product_save example_store (Some 1) (example_product\<lparr>stock_quantity := 7\<rparr>)))"
proof -
  let ?ops = "[Receive 1 5 10 1 [] [],
      Sell [0x0A1B2C3D0123456789ABCDEF01234567] 1 Cash (TaxAmount 0)
        [\<lparr>productId = 1, line_quantity = 2\<rparr>] []]"
  let ?p = "example_product\<lparr>stock_quantity := 7\<rparr>"
  let ?st' = "example_store\<lparr>products := \<lparr>rows = [(1, ?p)], seq = 1\<rparr>\<rparr>"
  have run: "committed example_catalog ?ops = Some example_store"
    by (simp add: example_recordReceipt example_createSale del: One_nat_def)
  have s0: "stock example_catalog 1 = Some 0"
    by (simp add: stock_def lookup_def example_defs2)
  have nn: "stocks_nonneg example_catalog"
    by (simp add: stocks_nonneg_def example_defs2)
  from stock_conservation [of example_catalog ?ops example_store 1] run
  have "stock example_store 1 = map_option (\<lambda>q. q + sum_list (map (received 1) ?ops)
                                         - sum_list (map (sold 1) ?ops)) (stock example_catalog 1)"
    by blast
  with s0 have s3: "stock example_store 1 = Some 3"
    by (simp add: line_total_def)
  from stock_conservation [of example_catalog ?ops example_store 1] run nn
  have nn': "stocks_nonneg example_store" by blast
  have fk: "fk_ok ?st'" by (simp add: fk_ok_def keys_def example_defs)
  have "Product_db_save example_store (Some 1) ?p = Inr (1, ?st')"
    by (simp add: Product_db_save_def save_row_def update_row_def keys_def example_defs)
  with fk have sv: "Product_save example_store (Some 1) ?p = (Inr 1, ?st')"
    by (simp add: Product_save_def atomic_def)
  from stock_conservation [of example_store "[]" ?st' 1 "Some 1" ?p 1] nn' sv
  have "stocks_nonneg ?st'" by blast
  with run s0 nn s3 nn' sv show ?thesis by simp
qed

text \<open>
  \<^verbatim>\<open>Sale.save\<close> computes no total: it stores the four amounts it is given. The sums are
  the work of \<^verbatim>\<open>createSale\<close>.
\<close>

lemma Sale_pre_save_keeps_totals:
  "sale_subtotal (Sale_pre_save r s) = sale_subtotal s \<and> tax (Sale_pre_save r s) = tax s
   \<and> total (Sale_pre_save r s) = total s \<and> sale_profit (Sale_pre_save r s) = sale_profit s"
  by (simp add: Sale_pre_save_def)

text \<open>
  Claim C4, for Sales created by \<^verbatim>\<open>createSale\<close> as the specification describes it. In
  every reachable store, the subtotal of every Sale is the sum of the subtotals of its
  SaleItems, its profit is the sum of their profits, and its total is its subtotal plus
  its tax.
\<close>

theorem sale_totals_consistent:
  "reachable st \<and> lookup (sales st) k = Some s \<longrightarrow>
     sale_subtotal s = sum_list (map (\<lambda>(_, i). field_value (subtotal i)) (items_of st k))
     \<and> sale_profit s = sum_list (map (\<lambda>(_, i). field_value (profit i)) (items_of st k))
     \<and> total s = sale_subtotal s + tax s"
proof
  assume a: "reachable st \<and> lookup (sales st) k = Some s"
  then have "totals_ok st" by (auto dest: reachable_store_inv simp: store_inv_def)
  moreover from a have "(k, s) \<in> set (rows (sales st))"
    by (auto simp: lookup_def dest: map_of_SomeD)
  ultimately show "sale_subtotal s = sum_list (map (\<lambda>(_, i). field_value (subtotal i)) (items_of st k))
     \<and> sale_profit s = sum_list (map (\<lambda>(_, i). field_value (profit i)) (items_of st k))
     \<and> total s = sale_subtotal s + tax s"
    by (auto simp: totals_ok_def list_all_iff)
qed

theorem sale_totals_consistent_witness:
  "reachable example_store
   \<and> lookup (sales example_store) 1 = Some example_sale
   \<and> items_of example_store 1 = [(1, example_item)]
   \<and> sale_subtotal example_sale = field_value (subtotal example_item)
   \<and> sale_profit example_sale = field_value (profit example_item)
   \<and> total example_sale = sale_subtotal example_sale + tax example_sale"
proof -
  have l: "lookup (sales example_store) 1 = Some example_sale"
    by (simp add: lookup_def example_store_def)
  have i: "items_of example_store 1 = [(1, example_item)]"
    by (simp add: items_of_def example_store_def example_item_def)
  from sale_totals_consistent [of example_store 1 example_sale] reachable_example_store l
  have "sale_subtotal example_sale
          = sum_list (map (\<lambda>(_, i). field_value (subtotal i)) (items_of example_store 1))
     \<and> sale_profit example_sale
          = sum_list (map (\<lambda>(_, i). field_value (profit i)) (items_of example_store 1))
     \<and> total example_sale = sale_subtotal example_sale + tax example_sale"
    by blast
  with reachable_example_store l i show ?thesis by simp
qed

end
